theory Spec2Isabelle
  imports Complex_Main "HOL-Library.AList"
begin

section \<open>Identifier generation (generators.pyx)\<close>

text \<open>
  A Python exception is a value. Every \<^verbatim>\<open>raise\<close> of the modelled code is a branch
  that returns \<open>Inl\<close> of one of these; a call that completes returns \<open>Inr\<close>.
\<close>

datatype exn =
    ValueError
  | KeyError
  | IndexError
  | AttributeError
  | NotImplementedError
  | UserError string

text \<open>
  The clock is a collaborator that is not part of the sources read here. The code only
  asks it for the time (\<^verbatim>\<open>time_now()\<close>) and tells it to cancel its timers and alerts;
  the model holds the reading it answers with.
\<close>

record datetime =
  year :: nat
  month :: nat
  day :: nat
  hour :: nat
  minute :: nat
  second :: nat

record clock =
  clock_time :: datetime

definition time_now :: "clock \<Rightarrow> datetime" where
  "time_now c = clock_time c"

text \<open>
  Python's \<^verbatim>\<open>f'{n}'\<close> of a non-negative integer: its decimal digits, most
  significant first. \<^verbatim>\<open>f'{n:02d}'\<close> pads with zeros on the left to two characters.
\<close>

definition digit_char :: "nat \<Rightarrow> char" where
  "digit_char d = char_of (48 + d)"

fun str_nat :: "nat \<Rightarrow> string" where
  "str_nat n = (if n < 10 then [digit_char n] else str_nat (n div 10) @ [digit_char (n mod 10)])"

declare str_nat.simps [simp del]

text \<open>Reading a decimal numeral back.\<close>

definition digit_val :: "char \<Rightarrow> nat" where
  "digit_val c = of_char c - 48"

definition parse_nat :: "string \<Rightarrow> nat" where
  "parse_nat s = foldl (\<lambda>acc c. 10 * acc + digit_val c) 0 s"

definition fmt_02d :: "nat \<Rightarrow> string" where
  "fmt_02d n = replicate (2 - length (str_nat n)) (CHR ''0'') @ str_nat n"

datatype order_id = OrderId string
datatype position_id = PositionId string

record identifier_generator =
  prefix :: string
  id_tag_trader :: string
  id_tag_strategy :: string
  counter :: nat

text \<open>
  Modelled from the spec: \<^verbatim>\<open>Condition.valid_string\<close> is imported from a module that is
  not among the sources; the spec names the empty string as the invalid argument.
\<close>

definition valid_string :: "string \<Rightarrow> bool" where
  "valid_string s = (s \<noteq> [])"

definition IdentifierGenerator_init ::
  "string \<Rightarrow> string \<Rightarrow> string \<Rightarrow> exn + identifier_generator" where
  "IdentifierGenerator_init p tag_trader tag_strategy =
     (if valid_string p
      then Inr \<lparr>prefix = p, id_tag_trader = tag_trader, id_tag_strategy = tag_strategy,
                counter = 0\<rparr>
      else Inl ValueError)"

definition IdentifierGenerator_reset :: "identifier_generator \<Rightarrow> identifier_generator" where
  "IdentifierGenerator_reset g = g\<lparr>counter := 0\<rparr>"

definition get_datetime_tag :: "clock \<Rightarrow> string" where
  "get_datetime_tag c =
     (let t = time_now c
      in str_nat (year t) @ fmt_02d (month t) @ fmt_02d (day t) @ ''-'' @
         fmt_02d (hour t) @ fmt_02d (minute t) @ fmt_02d (second t))"

text \<open>
  \<^verbatim>\<open>_generate\<close>: the counter is incremented first, and the incremented value is the one
  printed. The generator holds a reference to the clock; the model passes the clock in.
\<close>

definition IdentifierGenerator_generate ::
  "clock \<Rightarrow> identifier_generator \<Rightarrow> string \<times> identifier_generator" where
  "IdentifierGenerator_generate c g =
     (let g' = g\<lparr>counter := counter g + 1\<rparr>
      in (prefix g' @ ''-'' @ get_datetime_tag c @ ''-'' @ id_tag_trader g' @ ''-'' @
          id_tag_strategy g' @ ''-'' @ str_nat (counter g'), g'))"

definition OrderIdGenerator :: "string \<Rightarrow> string \<Rightarrow> exn + identifier_generator" where
  "OrderIdGenerator tag_trader tag_strategy =
     IdentifierGenerator_init ''O'' tag_trader tag_strategy"

definition PositionIdGenerator :: "string \<Rightarrow> string \<Rightarrow> exn + identifier_generator" where
  "PositionIdGenerator tag_trader tag_strategy =
     IdentifierGenerator_init ''P'' tag_trader tag_strategy"

definition OrderIdGenerator_generate ::
  "clock \<Rightarrow> identifier_generator \<Rightarrow> order_id \<times> identifier_generator" where
  "OrderIdGenerator_generate c g =
     (case IdentifierGenerator_generate c g of (s, g') \<Rightarrow> (OrderId s, g'))"

definition PositionIdGenerator_generate ::
  "clock \<Rightarrow> identifier_generator \<Rightarrow> position_id \<times> identifier_generator" where
  "PositionIdGenerator_generate c g =
     (case IdentifierGenerator_generate c g of (s, g') \<Rightarrow> (PositionId s, g'))"

text \<open>
  A run of the generator: one \<^verbatim>\<open>generate()\<close> call per clock reading of the list, in
  order (the clock may move between calls). The identifiers come back in call order.
\<close>

fun generate_run ::
  "clock list \<Rightarrow> identifier_generator \<Rightarrow> string list \<times> identifier_generator" where
  "generate_run [] g = ([], g)"
| "generate_run (c # cs) g =
     (case IdentifierGenerator_generate c g of
        (s, g') \<Rightarrow> (case generate_run cs g' of (ss, g'') \<Rightarrow> (s # ss, g'')))"

text \<open>The identifier a generator prints at clock reading \<open>c\<close> for counter value \<open>k\<close>.\<close>

definition identifier_text :: "identifier_generator \<Rightarrow> clock \<Rightarrow> nat \<Rightarrow> string" where
  "identifier_text g c k =
     prefix g @ ''-'' @ get_datetime_tag c @ ''-'' @ id_tag_trader g @ ''-'' @
     id_tag_strategy g @ ''-'' @ str_nat k"

definition test_clock :: clock where
  "test_clock = \<lparr>clock_time = \<lparr>year = 2020, month = 3, day = 14, hour = 9, minute = 26,
                                second = 53\<rparr>\<rparr>"

definition test_order_id_generator :: identifier_generator where
  "test_order_id_generator =
     \<lparr>prefix = ''O'', id_tag_trader = ''000'', id_tag_strategy = ''EMA-001'', counter = 0\<rparr>"

section \<open>The objects the strategy works with\<close>

text \<open>
  Prices are decimals compared by value; \<^typ>\<open>rat\<close> holds every decimal exactly.
  Identifier classes are value objects compared by their string.
\<close>

type_synonym price = rat

datatype order_side = BUY | SELL
datatype market_position = FLAT | LONG | SHORT
datatype symbol = Symbol string string
datatype bar_type = BarType symbol string
datatype trader_id = TraderId string
datatype strategy_id = StrategyId string
datatype label = Label string

text \<open>
  The GUID factory is a collaborator outside the sources. \<open>Guid n\<close> stands for the value
  its \<open>n\<close>-th \<^verbatim>\<open>generate()\<close> call hands out.
\<close>

datatype guid = Guid nat

record tick =
  tick_symbol :: symbol
  bid :: price
  ask :: price
  tick_timestamp :: datetime

record bar =
  bar_open :: price
  bar_high :: price
  bar_low :: price
  bar_close :: price
  bar_volume :: nat
  bar_timestamp :: datetime

text \<open>
  Modelled from the spec: the classes Order, AtomicOrder and Position are imported by
  strategy.pyx and not defined in the sources. The records carry the attributes the
  strategy reads (\<^verbatim>\<open>order.id\<close>, \<^verbatim>\<open>order.price\<close>, \<^verbatim>\<open>order.is_active\<close>,
  \<^verbatim>\<open>position.id\<close>, \<^verbatim>\<open>position.is_entered\<close>, \<^verbatim>\<open>position.is_flat\<close>, ...) and the spec's
  data model. A market order has no price; \<^verbatim>\<open>has_take_profit\<close> is whether the take-profit
  order is there.
\<close>

datatype order_type = MARKET | LIMIT | STOP_MARKET

record order =
  oid :: order_id
  order_symbol :: symbol
  side :: order_side
  type_of_order :: order_type
  quantity :: nat
  price :: "price option"
  order_label :: "label option"
  is_active :: bool

record atomic_order =
  entry :: order
  stop_loss :: order
  take_profit :: "order option"

record position =
  pid :: position_id
  position_symbol :: symbol
  market_position :: market_position
  position_quantity :: nat
  is_entered :: bool

text \<open>
  Modelled from the spec: \<^verbatim>\<open>Position.is_flat\<close>. A position is FLAT, LONG or SHORT, and
  it is flat when its market position is FLAT.
\<close>

definition position_is_flat :: "position \<Rightarrow> bool" where
  "position_is_flat p = (market_position p = FLAT)"

subsection \<open>Commands and events\<close>

record modify_order_command =
  mo_trader_id :: trader_id
  mo_strategy_id :: strategy_id
  mo_order_id :: order_id
  modified_price :: price
  mo_command_id :: guid
  mo_timestamp :: datetime

datatype command =
    CollateralInquiry guid datetime
  | SubmitOrder trader_id strategy_id position_id order guid datetime
  | SubmitAtomicOrder trader_id strategy_id position_id atomic_order guid datetime
  | ModifyOrder modify_order_command
  | CancelOrder trader_id strategy_id order_id string guid datetime

datatype event =
    OrderRejected order_id
  | OrderCancelled order_id
  | OrderFilled order_id
  | OrderPartiallyFilled order_id
  | OrderCancelReject order_id
  | OrderModified order_id
  | OrderExpired order_id
  | AccountEvent
  | PositionEvent
  | TimeEvent label

subsection \<open>Indicators\<close>

text \<open>
  Modelled from the spec: an indicator is a capability \<^verbatim>\<open>update(bar)\<close>, \<^verbatim>\<open>reset()\<close>,
  \<^verbatim>\<open>initialized\<close>; its implementations are outside the sources. The model keeps the
  bars an indicator was fed since its last reset (newest first) and lets the indicator
  decide from them whether it is initialized (\<open>warm\<close>). Indicators are objects shared
  between the strategy's lists, its updaters and the user's own fields, so the strategy
  holds references (\<open>nat\<close>) into a heap of indicator objects.
\<close>

record indicator =
  inputs :: "bar list"
  warm :: "bar list \<Rightarrow> bool"

definition initialized :: "indicator \<Rightarrow> bool" where
  "initialized i = warm i (inputs i)"

definition indicator_update :: "bar \<Rightarrow> indicator \<Rightarrow> indicator" where
  "indicator_update b i = i\<lparr>inputs := b # inputs i\<rparr>"

definition indicator_reset :: "indicator \<Rightarrow> indicator" where
  "indicator_reset i = i\<lparr>inputs := []\<rparr>"

type_synonym indicator_ref = nat

subsection \<open>The portfolio and the execution client\<close>

text \<open>
  Both are collaborators outside the sources. The strategy asks them questions and sends
  the execution client commands. The records hold the answers they give while one call
  of the strategy runs; the commands sent are written to the strategy's outbound trace
  (\<open>ExecuteCommand\<close>), in the order sent. \<^verbatim>\<open>get_position\<close> and \<^verbatim>\<open>get_order\<close> raise
  ValueError for an unknown identifier (their docstrings in strategy.pyx), which is
  \<open>None\<close> here.
\<close>

record portfolio =
  get_position_for_order :: "order_id \<Rightarrow> position option"
  get_position :: "position_id \<Rightarrow> position option"
  get_positions_active :: "strategy_id \<Rightarrow> (position_id \<times> position) list"
  is_strategy_flat :: "strategy_id \<Rightarrow> bool"

record execution_client =
  get_order :: "order_id \<Rightarrow> order option"
  get_orders :: "strategy_id \<Rightarrow> (order_id \<times> order) list"
  get_portfolio :: portfolio

subsection \<open>Effects\<close>

datatype log_level = DEBUG | INFO | WARNING | ERROR | EXCEPTION

datatype message =
    MsgEvent event
  | MsgRegisteredExecutionClient
  | MsgStarting
  | MsgRunning
  | MsgStopping
  | MsgStopped
  | MsgResidualEntry order
  | MsgResidualStopLoss order
  | MsgResidualTakeProfit order
  | MsgResidualChildOrder order_id
  | MsgResidualBuffered modify_order_command order_id
  | MsgCannotReset
  | MsgResetting
  | MsgReset
  | MsgCannotSubmitOrder
  | MsgSubmitting order position_id
  | MsgCannotSubmitAtomicOrder
  | MsgSubmittingAtomic atomic_order position_id
  | MsgCannotModifyOrder
  | MsgBufferingModifyOrder order price
  | MsgModifyingOrder order price
  | MsgModifyingBuffered order_id price
  | MsgCannotCancelAllOrders
  | MsgCannotFlattenPosition
  | MsgAlreadyFlat position_id
  | MsgFlattening position
  | MsgCannotFlattenAllPositions
  | MsgNoActivePositions
  | MsgRaised exn
  | MsgUser string

text \<open>
  What the strategy does that others can see, in the order done: its calls to the
  logger, to the clock and to the execution client, and its assignments to the flag
  \<^verbatim>\<open>is_running\<close>, which the trader and the strategy's handlers read. \<open>MsgUser\<close> is a
  line that a hook of the user's strategy writes to the strategy's log.
\<close>

datatype effect =
    Log log_level message
  | ExecuteCommand command
  | CancelAllTimeAlerts
  | CancelAllTimers
  | SetIsRunning bool

section \<open>The strategy (strategy.pyx)\<close>

subsection \<open>Dictionaries and deques\<close>

text \<open>
  A Python dict keeps its keys in insertion order: \<^verbatim>\<open>d[k] = v\<close> overwrites in place or
  appends (\<^const>\<open>AList.update\<close>), \<^verbatim>\<open>del d[k]\<close> removes the key (\<^const>\<open>AList.delete\<close>),
  \<^verbatim>\<open>d[k]\<close> is \<^const>\<open>map_of\<close> (with \<open>None\<close> the KeyError), \<^verbatim>\<open>d.values()\<close> is
  \<open>map snd\<close>.
\<close>

definition has_key :: "('k \<times> 'v) list \<Rightarrow> 'k \<Rightarrow> bool" where
  "has_key d k = (map_of d k \<noteq> None)"

text \<open>
  \<^verbatim>\<open>deque(maxlen=n)\<close>: \<^verbatim>\<open>appendleft\<close> on a full deque drops the item at the right end.
\<close>

record bar_deque =
  maxlen :: nat
  items :: "bar list"

definition appendleft :: "bar \<Rightarrow> bar_deque \<Rightarrow> bar_deque" where
  "appendleft b d = d\<lparr>items := take (maxlen d) (b # items d)\<rparr>"

subsection \<open>State\<close>

text \<open>
  Modelled from the spec: OrderFactory is outside the sources. It builds orders whose
  identifiers come from an OrderIdGenerator on the strategy's tags and clock; a market
  order carries the given symbol, side, quantity and label.
\<close>

record order_factory =
  id_generator :: identifier_generator

text \<open>
  The attributes of \<^verbatim>\<open>TradeStrategy\<close>. An attribute \<^verbatim>\<open>_x\<close> of the source is the field
  \<open>u_x\<close>; \<^verbatim>\<open>self.id\<close> is \<open>strategy_id\<close>. \<open>heap\<close> holds the indicator objects and
  \<open>trace\<close> the effects of the operations below, oldest first. The data client, the
  account and the exchange rate calculator play no part in the operations modelled and
  are left out.
\<close>

record strategy =
  trader_id :: trader_id
  strategy_id :: strategy_id
  strategy_id_tag_trader :: string
  strategy_id_tag_strategy :: string
  u_guid_factory :: nat
  clock :: clock
  flatten_on_sl_reject :: bool
  flatten_on_stop :: bool
  cancel_all_orders_on_stop :: bool
  order_factory :: order_factory
  position_id_generator :: identifier_generator
  u_entry_orders :: "(order_id \<times> order) list"
  u_stop_loss_orders :: "(order_id \<times> order) list"
  u_take_profit_orders :: "(order_id \<times> order) list"
  u_atomic_order_ids :: "(order_id \<times> order_id list) list"
  bar_capacity :: int
  u_ticks :: "(symbol \<times> tick) list"
  u_bars :: "(bar_type \<times> bar_deque) list"
  u_indicators :: "(bar_type \<times> indicator_ref list) list"
  u_indicator_updaters :: "(bar_type \<times> indicator_ref list) list"
  u_modify_order_buffer :: "(order_id \<times> modify_order_command) list"
  u_exec_client :: "execution_client option"
  u_portfolio :: "portfolio option"
  is_exec_client_registered :: bool
  is_portfolio_registered :: bool
  is_running :: bool
  heap :: "indicator_ref \<Rightarrow> indicator"
  trace :: "effect list"

text \<open>
  The user's strategy overrides the hooks. A hook may change the strategy and may raise;
  what it changed before raising stays changed.
\<close>

type_synonym hook = "strategy \<Rightarrow> exn option \<times> strategy"

record hooks =
  on_start :: hook
  on_tick :: "tick \<Rightarrow> hook"
  on_bar :: "bar_type \<Rightarrow> bar \<Rightarrow> hook"
  on_event :: "event \<Rightarrow> hook"
  on_stop :: hook
  on_reset :: hook

text \<open>The abstract methods of \<^verbatim>\<open>TradeStrategy\<close> raise NotImplementedError.\<close>

definition TradeStrategy_hooks :: hooks where
  "TradeStrategy_hooks =
     \<lparr>on_start = (\<lambda>s. (Some NotImplementedError, s)),
      on_tick = (\<lambda>t s. (Some NotImplementedError, s)),
      on_bar = (\<lambda>bt b s. (Some NotImplementedError, s)),
      on_event = (\<lambda>ev s. (Some NotImplementedError, s)),
      on_stop = (\<lambda>s. (Some NotImplementedError, s)),
      on_reset = (\<lambda>s. (Some NotImplementedError, s))\<rparr>"

text \<open>\<^verbatim>\<open>EmptyStrategy\<close>: every hook is \<^verbatim>\<open>pass\<close>.\<close>

definition EmptyStrategy_hooks :: hooks where
  "EmptyStrategy_hooks =
     \<lparr>on_start = (\<lambda>s. (None, s)),
      on_tick = (\<lambda>t s. (None, s)),
      on_bar = (\<lambda>bt b s. (None, s)),
      on_event = (\<lambda>ev s. (None, s)),
      on_stop = (\<lambda>s. (None, s)),
      on_reset = (\<lambda>s. (None, s))\<rparr>"

subsection \<open>Exceptions\<close>

text \<open>
  A method that returns a Python object (\<^verbatim>\<open>cpdef Order order(...)\<close>, \<^verbatim>\<open>cpdef list bars(...)\<close>,
  the constructor) hands an exception to its caller: its result is \<open>Inl e\<close> for the
  exception \<open>e\<close> and \<open>Inr v\<close> for the value \<open>v\<close>.

  A method declared \<^verbatim>\<open>cpdef void\<close>, \<^verbatim>\<open>cdef void\<close> or \<^verbatim>\<open>cpdef bint\<close> has no except clause
  in strategy.pyx, so it cannot hand an exception on: an exception raised in its body
  ends the body there, Cython writes it to stderr and drops it, and the method returns
  to its caller as after a \<^verbatim>\<open>return\<close> (False, for \<^verbatim>\<open>bint\<close>). What the body did before
  stays done. For a \<^verbatim>\<open>void\<close> method whose body can be cut short this way the model keeps
  both ends apart: \<open>Inr s'\<close> is the call that ran to the end of the body and left the
  strategy \<open>s'\<close>, \<open>Inl (e, s')\<close> the call that \<open>e\<close> cut short, leaving \<open>s'\<close>. The caller
  cannot tell them apart and goes on with \<open>s'\<close> (\<open>resume\<close>). A \<^verbatim>\<open>bint\<close> method gives its
  caller a truth value either way (\<open>bint_result\<close>).
\<close>

type_synonym outcome = "(exn \<times> strategy) + strategy"

definition resume :: "outcome \<Rightarrow> strategy" where
  "resume r = (case r of Inl (e, s') \<Rightarrow> s' | Inr s' \<Rightarrow> s')"

definition bint_result :: "exn + bool \<Rightarrow> bool" where
  "bint_result r = (case r of Inl e \<Rightarrow> False | Inr b \<Rightarrow> b)"

subsection \<open>Sequencing, logging and the collaborators' calls\<close>

definition and_then :: "'e + 'a \<Rightarrow> ('a \<Rightarrow> 'e + 'b) \<Rightarrow> 'e + 'b" where
  "and_then r f = (case r of Inl e \<Rightarrow> Inl e | Inr x \<Rightarrow> f x)"

definition write_log :: "log_level \<Rightarrow> message \<Rightarrow> strategy \<Rightarrow> strategy" where
  "write_log lvl m s = s\<lparr>trace := trace s @ [Log lvl m]\<rparr>"

text \<open>
  \<^verbatim>\<open>try: self.on_x(...) except Exception as ex: self.log.exception(ex)\<close>
\<close>

definition call_hook :: "hook \<Rightarrow> strategy \<Rightarrow> strategy" where
  "call_hook f s =
     (case f s of
        (None, s') \<Rightarrow> s'
      | (Some ex, s') \<Rightarrow> write_log EXCEPTION (MsgRaised ex) s')"

definition guid_generate :: "strategy \<Rightarrow> guid \<times> strategy" where
  "guid_generate s = (Guid (u_guid_factory s), s\<lparr>u_guid_factory := Suc (u_guid_factory s)\<rparr>)"

text \<open>
  \<^verbatim>\<open>self._exec_client.execute_command(command)\<close>, a statement in the body of the method
  that sends the command. The client is None before registration, and the
  AttributeError then cuts that method short.
\<close>

definition execute_command :: "command \<Rightarrow> strategy \<Rightarrow> outcome" where
  "execute_command cmd s =
     (case u_exec_client s of
        None \<Rightarrow> Inl (AttributeError, s)
      | Some c \<Rightarrow> Inr (s\<lparr>trace := trace s @ [ExecuteCommand cmd]\<rparr>))"

text \<open>\<^verbatim>\<open>self.is_running = b\<close>\<close>

definition set_is_running :: "bool \<Rightarrow> strategy \<Rightarrow> strategy" where
  "set_is_running b s = s\<lparr>is_running := b, trace := trace s @ [SetIsRunning b]\<rparr>"

definition cancel_all_time_alerts :: "strategy \<Rightarrow> strategy" where
  "cancel_all_time_alerts s = s\<lparr>trace := trace s @ [CancelAllTimeAlerts]\<rparr>"

definition cancel_all_timers :: "strategy \<Rightarrow> strategy" where
  "cancel_all_timers s = s\<lparr>trace := trace s @ [CancelAllTimers]\<rparr>"

definition order_factory_reset :: "order_factory \<Rightarrow> order_factory" where
  "order_factory_reset f = f\<lparr>id_generator := IdentifierGenerator_reset (id_generator f)\<rparr>"

definition order_factory_market ::
  "symbol \<Rightarrow> order_side \<Rightarrow> nat \<Rightarrow> label \<Rightarrow> strategy \<Rightarrow> order \<times> strategy" where
  "order_factory_market sy sd qty lbl s =
     (case OrderIdGenerator_generate (clock s) (id_generator (order_factory s)) of
        (i, g') \<Rightarrow>
          (\<lparr>oid = i, order_symbol = sy, side = sd, type_of_order = MARKET, quantity = qty,
            price = None, order_label = Some lbl, is_active = False\<rparr>,
           s\<lparr>order_factory := (order_factory s)\<lparr>id_generator := g'\<rparr>\<rparr>))"

subsection \<open>Construction and registration\<close>

text \<open>
  \<^verbatim>\<open>__init__\<close>. The class name of the user's strategy goes into the strategy identifier;
  \<open>objs\<close> are the indicator objects of the program. The trace starts empty: the
  registration of the logger and of the handler with the clock is not recorded.
\<close>

definition TradeStrategy_init ::
  "string \<Rightarrow> string \<Rightarrow> bool \<Rightarrow> bool \<Rightarrow> bool \<Rightarrow> int \<Rightarrow> clock \<Rightarrow>
   (indicator_ref \<Rightarrow> indicator) \<Rightarrow> exn + strategy" where
  "TradeStrategy_init class_name id_tag sl_reject on_stop_flatten on_stop_cancel capacity clk objs =
     (if \<not> valid_string id_tag then Inl ValueError
      else if \<not> 0 < capacity then Inl ValueError
      else
        and_then (OrderIdGenerator ''000'' id_tag) (\<lambda>og.
        and_then (PositionIdGenerator ''000'' id_tag) (\<lambda>pg.
          Inr \<lparr>trader_id = TraderId ''Trader-000'',
               strategy_id = StrategyId (class_name @ ''-'' @ id_tag),
               strategy_id_tag_trader = ''000'',
               strategy_id_tag_strategy = id_tag,
               u_guid_factory = 0,
               clock = clk,
               flatten_on_sl_reject = sl_reject,
               flatten_on_stop = on_stop_flatten,
               cancel_all_orders_on_stop = on_stop_cancel,
               order_factory = \<lparr>id_generator = og\<rparr>,
               position_id_generator = pg,
               u_entry_orders = [],
               u_stop_loss_orders = [],
               u_take_profit_orders = [],
               u_atomic_order_ids = [],
               bar_capacity = capacity,
               u_ticks = [],
               u_bars = [],
               u_indicators = [],
               u_indicator_updaters = [],
               u_modify_order_buffer = [],
               u_exec_client = None,
               u_portfolio = None,
               is_exec_client_registered = False,
               is_portfolio_registered = False,
               is_running = False,
               heap = objs,
               trace = []\<rparr>)))"

definition register_execution_client :: "execution_client \<Rightarrow> strategy \<Rightarrow> strategy" where
  "register_execution_client client s =
     write_log DEBUG MsgRegisteredExecutionClient
       (s\<lparr>u_exec_client := Some client,
          u_portfolio := Some (get_portfolio client),
          is_exec_client_registered := True,
          is_portfolio_registered := True\<rparr>)"

text \<open>
  \<^verbatim>\<open>if k not in d: d[k] = []\<close> followed by \<^verbatim>\<open>d[k].append(v)\<close>.
\<close>

definition append_at :: "'k \<Rightarrow> 'v \<Rightarrow> ('k \<times> 'v list) list \<Rightarrow> ('k \<times> 'v list) list" where
  "append_at k v d =
     (let d1 = (if \<not> has_key d k then AList.update k [] d else d)
      in case map_of d1 k of
           None \<Rightarrow> d1
         | Some l \<Rightarrow> AList.update k (l @ [v]) d1)"

text \<open>
  The updater built by \<^verbatim>\<open>IndicatorUpdater(indicator, update_method)\<close> is kept as the
  reference of the indicator it feeds. The two type checks at the head of
  \<^verbatim>\<open>register_indicator\<close> hold by typing.
\<close>

definition register_indicator :: "bar_type \<Rightarrow> indicator_ref \<Rightarrow> strategy \<Rightarrow> strategy" where
  "register_indicator bt r s =
     s\<lparr>u_indicators := append_at bt r (u_indicators s),
       u_indicator_updaters := append_at bt r (u_indicator_updaters s)\<rparr>"

definition register_entry_order :: "order \<Rightarrow> position_id \<Rightarrow> strategy \<Rightarrow> strategy" where
  "register_entry_order ord position_id s =
     s\<lparr>u_entry_orders := AList.update (oid ord) ord (u_entry_orders s)\<rparr>"

definition register_stop_loss_order :: "order \<Rightarrow> position_id \<Rightarrow> strategy \<Rightarrow> strategy" where
  "register_stop_loss_order ord position_id s =
     s\<lparr>u_stop_loss_orders := AList.update (oid ord) ord (u_stop_loss_orders s)\<rparr>"

definition register_take_profit_order :: "order \<Rightarrow> position_id \<Rightarrow> strategy \<Rightarrow> strategy" where
  "register_take_profit_order ord position_id s =
     s\<lparr>u_take_profit_orders := AList.update (oid ord) ord (u_take_profit_orders s)\<rparr>"

subsection \<open>Commands\<close>

text \<open>
  \<^verbatim>\<open>get_flatten_side\<close> raises ValueError for FLAT. Its result is the C enum OrderSide,
  declared outside the sources; the model takes the exception to end the body of the
  caller. The flatten methods below ask for the side of a position that is not flat,
  which is LONG or SHORT, so no call of theirs meets it.
\<close>

definition get_flatten_side :: "market_position \<Rightarrow> exn + order_side" where
  "get_flatten_side mp =
     (if mp = LONG then Inr SELL
      else if mp = SHORT then Inr BUY
      else Inl ValueError)"

definition order :: "order_id \<Rightarrow> strategy \<Rightarrow> exn + order" where
  "order order_id s =
     (case u_exec_client s of
        None \<Rightarrow> Inl AttributeError
      | Some c \<Rightarrow> (case get_order c order_id of None \<Rightarrow> Inl ValueError | Some ord \<Rightarrow> Inr ord))"

text \<open>
  \<^verbatim>\<open>cpdef bint is_flat\<close>: with no portfolio registered the AttributeError is dropped and
  the answer is False.
\<close>

definition is_flat :: "strategy \<Rightarrow> bool" where
  "is_flat s =
     bint_result
       (case u_portfolio s of
          None \<Rightarrow> Inl AttributeError
        | Some pf \<Rightarrow> Inr (is_strategy_flat pf (strategy_id s)))"

definition submit_order :: "order \<Rightarrow> position_id \<Rightarrow> strategy \<Rightarrow> outcome" where
  "submit_order ord position_id s =
     (if \<not> is_exec_client_registered s then Inr (write_log ERROR MsgCannotSubmitOrder s)
      else
        let s1 = write_log INFO (MsgSubmitting ord position_id) s
        in case guid_generate s1 of
             (g, s2) \<Rightarrow>
               execute_command
                 (SubmitOrder (trader_id s2) (strategy_id s2) position_id ord g
                    (time_now (clock s2))) s2)"

text \<open>
  The three methods below register the order and call \<^verbatim>\<open>submit_order\<close>; nothing in
  their own bodies raises.
\<close>

definition submit_entry_order :: "order \<Rightarrow> position_id \<Rightarrow> strategy \<Rightarrow> strategy" where
  "submit_entry_order ord position_id s =
     resume (submit_order ord position_id (register_entry_order ord position_id s))"

definition submit_stop_loss_order :: "order \<Rightarrow> position_id \<Rightarrow> strategy \<Rightarrow> strategy" where
  "submit_stop_loss_order ord position_id s =
     resume (submit_order ord position_id (register_stop_loss_order ord position_id s))"

definition submit_take_profit_order :: "order \<Rightarrow> position_id \<Rightarrow> strategy \<Rightarrow> strategy" where
  "submit_take_profit_order ord position_id s =
     resume (submit_order ord position_id (register_take_profit_order ord position_id s))"

definition submit_atomic_order :: "atomic_order \<Rightarrow> position_id \<Rightarrow> strategy \<Rightarrow> outcome" where
  "submit_atomic_order a position_id s =
     (if \<not> is_exec_client_registered s then Inr (write_log ERROR MsgCannotSubmitAtomicOrder s)
      else
        let s1 = write_log INFO (MsgSubmittingAtomic a position_id) s;
            s2 = register_entry_order (entry a) position_id s1;
            s3 = register_stop_loss_order (stop_loss a) position_id s2;
            s4 = (case take_profit a of
                    None \<Rightarrow> s3
                  | Some tp \<Rightarrow> register_take_profit_order tp position_id s3);
            child_order_ids =
              [oid (stop_loss a)] @
              (case take_profit a of None \<Rightarrow> [] | Some tp \<Rightarrow> [oid tp]);
            s5 = s4\<lparr>u_atomic_order_ids :=
                       AList.update (oid (entry a)) child_order_ids (u_atomic_order_ids s4)\<rparr>
        in case guid_generate s5 of
             (g, s6) \<Rightarrow>
               execute_command
                 (SubmitAtomicOrder (trader_id s6) (strategy_id s6) position_id a g
                    (time_now (clock s6))) s6)"

definition modify_order :: "order \<Rightarrow> price \<Rightarrow> strategy \<Rightarrow> outcome" where
  "modify_order ord new_price s =
     (if \<not> is_exec_client_registered s then Inr (write_log ERROR MsgCannotModifyOrder s)
      else
        case guid_generate s of
          (g, s1) \<Rightarrow>
            let cmd = \<lparr>mo_trader_id = trader_id s1, mo_strategy_id = strategy_id s1,
                       mo_order_id = oid ord, modified_price = new_price,
                       mo_command_id = g, mo_timestamp = time_now (clock s1)\<rparr>
            in if has_key (u_modify_order_buffer s1) (oid ord)
               then Inr (write_log WARNING (MsgBufferingModifyOrder ord new_price)
                      (s1\<lparr>u_modify_order_buffer :=
                            AList.update (oid ord) cmd (u_modify_order_buffer s1)\<rparr>))
               else execute_command (ModifyOrder cmd)
                      (write_log INFO (MsgModifyingOrder ord new_price)
                        (s1\<lparr>u_modify_order_buffer :=
                              AList.update (oid ord) cmd (u_modify_order_buffer s1)\<rparr>)))"

text \<open>
  The loop of \<^verbatim>\<open>cancel_all_orders\<close> over \<^verbatim>\<open>all_orders.items()\<close>. \<^verbatim>\<open>ValidString\<close>
  refuses a reason that is not a valid string (the method's docstring: ValueError).
\<close>

fun cancel_each :: "string \<Rightarrow> (order_id \<times> order) list \<Rightarrow> strategy \<Rightarrow> outcome" where
  "cancel_each reason [] s = Inr s"
| "cancel_each reason ((order_id, ord) # rest) s =
     (if is_active ord
      then
        if \<not> valid_string reason then Inl (ValueError, s)
        else
          case guid_generate s of
            (g, s1) \<Rightarrow>
              and_then
                (execute_command
                   (CancelOrder (trader_id s1) (strategy_id s1) order_id reason g
                      (time_now (clock s1))) s1)
                (cancel_each reason rest)
      else cancel_each reason rest s)"

definition cancel_all_orders :: "string \<Rightarrow> strategy \<Rightarrow> outcome" where
  "cancel_all_orders reason s =
     (if \<not> is_exec_client_registered s then Inr (write_log ERROR MsgCannotCancelAllOrders s)
      else
        case u_exec_client s of
          None \<Rightarrow> Inl (AttributeError, s)
        | Some c \<Rightarrow> cancel_each reason (get_orders c (strategy_id s)) s)"

text \<open>
  \<^verbatim>\<open>flatten_position\<close>. Its last statement calls \<^verbatim>\<open>submit_order\<close>, itself a
  \<^verbatim>\<open>cpdef void\<close> method: whatever happens in there, the body of \<^verbatim>\<open>flatten_position\<close>
  has run to its end.
\<close>

definition flatten_position :: "position_id \<Rightarrow> strategy \<Rightarrow> outcome" where
  "flatten_position position_id s =
     (if \<not> is_exec_client_registered s then Inr (write_log ERROR MsgCannotFlattenPosition s)
      else
        case u_portfolio s of
          None \<Rightarrow> Inl (AttributeError, s)
        | Some pf \<Rightarrow>
            (case get_position pf position_id of
               None \<Rightarrow> Inl (ValueError, s)
             | Some p \<Rightarrow>
                 if position_is_flat p
                 then Inr (write_log WARNING (MsgAlreadyFlat position_id) s)
                 else
                   (case get_flatten_side (market_position p) of
                      Inl e \<Rightarrow> Inl (e, s)
                    | Inr sd \<Rightarrow>
                        (case order_factory_market (position_symbol p) sd (position_quantity p)
                                (Label ''EXIT'') s of
                           (ord, s1) \<Rightarrow>
                             Inr (resume (submit_order ord position_id
                                            (write_log INFO (MsgFlattening p) s1)))))))"

text \<open>The loop of \<^verbatim>\<open>flatten_all_positions\<close> over \<^verbatim>\<open>positions.items()\<close>.\<close>

fun flatten_each :: "(position_id \<times> position) list \<Rightarrow> strategy \<Rightarrow> outcome" where
  "flatten_each [] s = Inr s"
| "flatten_each ((position_id, p) # rest) s =
     (if position_is_flat p
      then flatten_each rest (write_log WARNING (MsgAlreadyFlat position_id) s)
      else
        (case get_flatten_side (market_position p) of
           Inl e \<Rightarrow> Inl (e, s)
         | Inr sd \<Rightarrow>
             (case order_factory_market (position_symbol p) sd (position_quantity p)
                     (Label ''EXIT'') s of
                (ord, s1) \<Rightarrow>
                  flatten_each rest
                    (resume (submit_order ord position_id
                               (write_log INFO (MsgFlattening p) s1))))))"

definition flatten_all_positions :: "strategy \<Rightarrow> outcome" where
  "flatten_all_positions s =
     (if \<not> is_exec_client_registered s
      then Inr (write_log ERROR MsgCannotFlattenAllPositions s)
      else
        case u_portfolio s of
          None \<Rightarrow> Inl (AttributeError, s)
        | Some pf \<Rightarrow>
            let positions = get_positions_active pf (strategy_id s)
            in if length positions = 0
               then Inr (write_log WARNING MsgNoActivePositions s)
               else flatten_each positions s)"

subsection \<open>Handlers\<close>

definition handle_tick :: "hooks \<Rightarrow> tick \<Rightarrow> strategy \<Rightarrow> strategy" where
  "handle_tick h t s =
     (let s1 = s\<lparr>u_ticks := AList.update (tick_symbol t) t (u_ticks s)\<rparr>
      in if is_running s1 then call_hook (on_tick h t) s1 else s1)"

text \<open>
  \<^verbatim>\<open>updater.update_bar(bar)\<close> for every updater of the list, in order: the indicator
  object behind the reference is fed the bar.
\<close>

definition update_bar :: "bar \<Rightarrow> indicator_ref \<Rightarrow> (indicator_ref \<Rightarrow> indicator) \<Rightarrow>
    (indicator_ref \<Rightarrow> indicator)" where
  "update_bar b r objs = objs(r := indicator_update b (objs r))"

text \<open>
  \<^verbatim>\<open>deque(maxlen=n)\<close> raises ValueError for a negative \<open>n\<close>.
\<close>

definition handle_bar :: "hooks \<Rightarrow> bar_type \<Rightarrow> bar \<Rightarrow> strategy \<Rightarrow> outcome" where
  "handle_bar h bt b s =
     (if \<not> has_key (u_bars s) bt \<and> bar_capacity s < 0 then Inl (ValueError, s)
      else
        let bars1 = (if \<not> has_key (u_bars s) bt
                     then AList.update bt \<lparr>maxlen = nat (bar_capacity s), items = []\<rparr> (u_bars s)
                     else u_bars s)
        in case map_of bars1 bt of
             None \<Rightarrow> Inl (KeyError, s\<lparr>u_bars := bars1\<rparr>)
           | Some d \<Rightarrow>
               let s1 = s\<lparr>u_bars := AList.update bt (appendleft b d) bars1\<rparr>
               in and_then
                    (if has_key (u_indicators s1) bt
                     then (case map_of (u_indicator_updaters s1) bt of
                             None \<Rightarrow> Inl (KeyError, s1)
                           | Some updaters \<Rightarrow>
                               Inr (s1\<lparr>heap := fold (update_bar b) updaters (heap s1)\<rparr>))
                     else Inr s1)
                    (\<lambda>s2. Inr (if is_running s2 then call_hook (on_bar h bt b) s2 else s2)))"

definition remove_from_registered_orders :: "order_id \<Rightarrow> strategy \<Rightarrow> strategy" where
  "remove_from_registered_orders order_id s =
     (if has_key (u_entry_orders s) order_id
      then s\<lparr>u_entry_orders := AList.delete order_id (u_entry_orders s)\<rparr>
      else if has_key (u_stop_loss_orders s) order_id
      then s\<lparr>u_stop_loss_orders := AList.delete order_id (u_stop_loss_orders s)\<rparr>
      else if has_key (u_take_profit_orders s) order_id
      then s\<lparr>u_take_profit_orders := AList.delete order_id (u_take_profit_orders s)\<rparr>
      else s)"

definition remove_atomic_child_orders :: "order_id \<Rightarrow> strategy \<Rightarrow> strategy" where
  "remove_atomic_child_orders order_id s =
     (case map_of (u_atomic_order_ids s) order_id of
        None \<Rightarrow> s
      | Some children \<Rightarrow>
          let s1 = fold remove_from_registered_orders children s
          in s1\<lparr>u_atomic_order_ids := AList.delete order_id (u_atomic_order_ids s1)\<rparr>)"

definition process_modify_order_buffer :: "order_id \<Rightarrow> strategy \<Rightarrow> outcome" where
  "process_modify_order_buffer order_id s =
     (case map_of (u_modify_order_buffer s) order_id of
        None \<Rightarrow> Inl (KeyError, s)
      | Some buffered_command \<Rightarrow>
          (case order order_id s of
             Inl e \<Rightarrow> Inl (e, s)
           | Inr ord \<Rightarrow>
               and_then
                 (if Some (modified_price buffered_command) \<noteq> price ord
                  then execute_command (ModifyOrder buffered_command)
                         (write_log INFO
                            (MsgModifyingBuffered (mo_order_id buffered_command)
                               (modified_price buffered_command)) s)
                  else Inr s)
                 (\<lambda>s1. Inr (s1\<lparr>u_modify_order_buffer :=
                                  AList.delete order_id (u_modify_order_buffer s1)\<rparr>))))"

text \<open>
  The \<^verbatim>\<open>isinstance\<close> chain of \<^verbatim>\<open>handle_event\<close>, in the order of the source. The event
  classes are distinct, so at most one branch applies. The chain calls
  \<^verbatim>\<open>flatten_position\<close> and \<^verbatim>\<open>_process_modify_order_buffer\<close>, both \<^verbatim>\<open>void\<close> methods, and
  goes on after them; the lookup of the position stands in the body of \<^verbatim>\<open>handle_event\<close>
  itself, and an exception there cuts \<^verbatim>\<open>handle_event\<close> short.
\<close>

fun apply_event :: "event \<Rightarrow> strategy \<Rightarrow> outcome" where
  "apply_event (OrderRejected order_id) s =
     (let s1 = write_log WARNING (MsgEvent (OrderRejected order_id)) s
      in and_then
           (if has_key (u_stop_loss_orders s1) order_id \<and> flatten_on_sl_reject s1
            then (case u_portfolio s1 of
                    None \<Rightarrow> Inl (AttributeError, s1)
                  | Some pf \<Rightarrow>
                      (case get_position_for_order pf order_id of
                         None \<Rightarrow> Inl (AttributeError, s1)
                       | Some p \<Rightarrow>
                           if is_entered p then Inr (resume (flatten_position (pid p) s1))
                           else Inr s1))
            else Inr s1)
           (\<lambda>s2. Inr (remove_from_registered_orders order_id
                        (remove_atomic_child_orders order_id s2))))"
| "apply_event (OrderCancelled order_id) s =
     (let s1 = write_log INFO (MsgEvent (OrderCancelled order_id)) s
      in Inr (remove_from_registered_orders order_id (remove_atomic_child_orders order_id s1)))"
| "apply_event (OrderFilled order_id) s =
     (let s1 = write_log INFO (MsgEvent (OrderFilled order_id)) s;
          s2 = (if has_key (u_atomic_order_ids s1) order_id
                then s1\<lparr>u_atomic_order_ids := AList.delete order_id (u_atomic_order_ids s1)\<rparr>
                else s1)
      in Inr (remove_from_registered_orders order_id s2))"
| "apply_event (OrderPartiallyFilled order_id) s =
     Inr (write_log WARNING (MsgEvent (OrderPartiallyFilled order_id)) s)"
| "apply_event (OrderCancelReject order_id) s =
     (let s1 = write_log WARNING (MsgEvent (OrderCancelReject order_id)) s
      in if has_key (u_modify_order_buffer s1) order_id
         then Inr (resume (process_modify_order_buffer order_id s1))
         else Inr s1)"
| "apply_event (OrderModified order_id) s =
     (let s1 = write_log INFO (MsgEvent (OrderModified order_id)) s
      in if has_key (u_modify_order_buffer s1) order_id
         then Inr (resume (process_modify_order_buffer order_id s1))
         else Inr s1)"
| "apply_event (OrderExpired order_id) s =
     (let s1 = write_log INFO (MsgEvent (OrderExpired order_id)) s
      in Inr (remove_from_registered_orders order_id (remove_atomic_child_orders order_id s1)))"
| "apply_event ev s = Inr (write_log INFO (MsgEvent ev) s)"

text \<open>
  \<^verbatim>\<open>handle_event\<close>: the chain above, then \<^verbatim>\<open>on_event\<close> when the strategy is running.
\<close>

definition deliver_event :: "hooks \<Rightarrow> event \<Rightarrow> strategy \<Rightarrow> strategy" where
  "deliver_event h ev s = (if is_running s then call_hook (on_event h ev) s else s)"

definition handle_event :: "hooks \<Rightarrow> event \<Rightarrow> strategy \<Rightarrow> outcome" where
  "handle_event h ev s = and_then (apply_event ev s) (\<lambda>s1. Inr (deliver_event h ev s1))"

subsection \<open>Data and indicator methods\<close>

text \<open>
  \<^verbatim>\<open>Precondition.is_in(key, dict, ...)\<close> raises ValueError when the key is not in the
  dictionary (the docstrings of the methods below). \<^verbatim>\<open>bars\<close>, \<^verbatim>\<open>last_bar\<close> and
  \<^verbatim>\<open>last_tick\<close> return Python objects and hand the exception on.
\<close>

definition bars :: "bar_type \<Rightarrow> strategy \<Rightarrow> exn + bar list" where
  "bars bt s =
     (case map_of (u_bars s) bt of
        None \<Rightarrow> Inl ValueError
      | Some d \<Rightarrow> Inr (items d))"

definition last_bar :: "bar_type \<Rightarrow> strategy \<Rightarrow> exn + bar" where
  "last_bar bt s =
     (case map_of (u_bars s) bt of
        None \<Rightarrow> Inl ValueError
      | Some d \<Rightarrow> (case items d of [] \<Rightarrow> Inl IndexError | b # _ \<Rightarrow> Inr b))"

definition last_tick :: "symbol \<Rightarrow> strategy \<Rightarrow> exn + tick" where
  "last_tick sy s =
     (case map_of (u_ticks s) sy of
        None \<Rightarrow> Inl ValueError
      | Some t \<Rightarrow> Inr t)"

text \<open>
  The loops of \<^verbatim>\<open>indicators_initialized\<close> and \<^verbatim>\<open>indicators_initialized_all\<close>: the first
  indicator that is not initialized ends the call with False.
\<close>

fun scan_indicators :: "(indicator_ref \<Rightarrow> indicator) \<Rightarrow> indicator_ref list \<Rightarrow> bool" where
  "scan_indicators objs [] = True"
| "scan_indicators objs (r # rs) =
     (if \<not> initialized (objs r) then False else scan_indicators objs rs)"

fun scan_indicator_lists :: "(indicator_ref \<Rightarrow> indicator) \<Rightarrow> indicator_ref list list \<Rightarrow> bool" where
  "scan_indicator_lists objs [] = True"
| "scan_indicator_lists objs (l # ls) =
     (if \<not> scan_indicators objs l then False else scan_indicator_lists objs ls)"

text \<open>
  \<^verbatim>\<open>cpdef bint indicators_initialized\<close>: its precondition check raises ValueError for a
  bar type that has no list in the registry, as the docstring says; the method cannot
  hand the exception on, so its caller gets False.
\<close>

definition indicators_initialized :: "bar_type \<Rightarrow> strategy \<Rightarrow> bool" where
  "indicators_initialized bt s =
     bint_result
       (case map_of (u_indicators s) bt of
          None \<Rightarrow> Inl ValueError
        | Some l \<Rightarrow> Inr (scan_indicators (heap s) l))"

definition indicators_initialized_all :: "strategy \<Rightarrow> bool" where
  "indicators_initialized_all s = scan_indicator_lists (heap s) (map snd (u_indicators s))"

subsection \<open>Lifecycle\<close>

definition start :: "hooks \<Rightarrow> strategy \<Rightarrow> strategy" where
  "start h s =
     (let s1 = write_log INFO MsgStarting s;
          s2 = set_is_running True s1;
          s3 = call_hook (on_start h) s2
      in write_log INFO MsgRunning s3)"

text \<open>The residual checks of \<^verbatim>\<open>stop\<close>, one warning per entry, in dictionary order.\<close>

definition residual_warnings :: "strategy \<Rightarrow> effect list" where
  "residual_warnings s =
     map (\<lambda>ord. Log WARNING (MsgResidualEntry ord)) (map snd (u_entry_orders s)) @
     map (\<lambda>ord. Log WARNING (MsgResidualStopLoss ord)) (map snd (u_stop_loss_orders s)) @
     map (\<lambda>ord. Log WARNING (MsgResidualTakeProfit ord)) (map snd (u_take_profit_orders s)) @
     concat (map (\<lambda>order_id.
                    case map_of (u_atomic_order_ids s) order_id of
                      None \<Rightarrow> []
                    | Some children \<Rightarrow>
                        map (\<lambda>child. Log WARNING (MsgResidualChildOrder child)) children)
                 (map fst (u_atomic_order_ids s))) @
     map (\<lambda>(order_id, cmd). Log WARNING (MsgResidualBuffered cmd order_id))
       (u_modify_order_buffer s)"

text \<open>
  \<^verbatim>\<open>stop\<close>. \<^verbatim>\<open>is_flat\<close>, \<^verbatim>\<open>flatten_all_positions\<close> and \<^verbatim>\<open>cancel_all_orders\<close> hand no
  exception on, and nothing else in the body raises: \<^verbatim>\<open>stop\<close> runs to its end.
\<close>

definition stop :: "hooks \<Rightarrow> strategy \<Rightarrow> strategy" where
  "stop h s =
     (let s1 = write_log INFO MsgStopping s;
          s2 = cancel_all_time_alerts s1;
          s3 = cancel_all_timers s2;
          s4 = (if flatten_on_stop s3
                then (if \<not> is_flat s3 then resume (flatten_all_positions s3) else s3)
                else s3);
          s5 = (if cancel_all_orders_on_stop s4
                then resume (cancel_all_orders ''STOPPING STRATEGY'' s4)
                else s4);
          s6 = set_is_running False s5;
          s7 = s6\<lparr>trace := trace s6 @ residual_warnings s6\<rparr>;
          s8 = call_hook (on_stop h) s7
      in write_log INFO MsgStopped s8)"

text \<open>
  \<^verbatim>\<open>reset\<close>. The loop over \<^verbatim>\<open>self._indicators.values()\<close> calls \<^verbatim>\<open>reset()\<close> on every
  indicator of every list.
\<close>

definition reset_indicator :: "indicator_ref \<Rightarrow> (indicator_ref \<Rightarrow> indicator) \<Rightarrow>
    (indicator_ref \<Rightarrow> indicator)" where
  "reset_indicator r objs = objs(r := indicator_reset (objs r))"

definition reset :: "hooks \<Rightarrow> strategy \<Rightarrow> strategy" where
  "reset h s =
     (if is_running s then write_log ERROR MsgCannotReset s
      else
        let s1 = write_log INFO MsgResetting s;
            s2 = s1\<lparr>order_factory := order_factory_reset (order_factory s1)\<rparr>;
            s3 = s2\<lparr>position_id_generator := IdentifierGenerator_reset (position_id_generator s2)\<rparr>;
            s4 = s3\<lparr>u_ticks := []\<rparr>;
            s5 = s4\<lparr>u_bars := []\<rparr>;
            s6 = s5\<lparr>heap := fold (\<lambda>indicator_list objs. fold reset_indicator indicator_list objs)
                                (map snd (u_indicators s5)) (heap s5)\<rparr>;
            s7 = call_hook (on_reset h) s6
        in write_log INFO MsgReset s7)"

subsection \<open>Runs of calls, and what the theorems speak about\<close>

text \<open>
  What \<^verbatim>\<open>handle_bar\<close> does to the strategy before it turns to the user's hook, in the
  spec's words: the bar is put at the front of the bounded deque of its bar type (made
  with capacity \<^verbatim>\<open>bar_capacity\<close> on first use), then every updater bound to the bar type
  is fed the bar.
\<close>

definition cache_bar :: "bar_type \<Rightarrow> bar \<Rightarrow> strategy \<Rightarrow> strategy" where
  "cache_bar bt b s =
     s\<lparr>u_bars :=
         AList.update bt
           (appendleft b
              (case map_of (u_bars s) bt of
                 None \<Rightarrow> \<lparr>maxlen = nat (bar_capacity s), items = []\<rparr>
               | Some d \<Rightarrow> d))
           (u_bars s)\<rparr>"

definition bound_updaters :: "strategy \<Rightarrow> bar_type \<Rightarrow> indicator_ref list" where
  "bound_updaters s bt =
     (case map_of (u_indicator_updaters s) bt of None \<Rightarrow> [] | Some updaters \<Rightarrow> updaters)"

definition feed_updaters :: "bar_type \<Rightarrow> bar \<Rightarrow> strategy \<Rightarrow> strategy" where
  "feed_updaters bt b s = s\<lparr>heap := fold (update_bar b) (bound_updaters s bt) (heap s)\<rparr>"

text \<open>How often a reference occurs in a list: an indicator bound twice is fed twice.\<close>

definition occurrences :: "indicator_ref \<Rightarrow> indicator_ref list \<Rightarrow> nat" where
  "occurrences r rs = length (filter (\<lambda>x. x = r) rs)"

text \<open>The bars held for a bar type, newest first; nothing for a bar type never seen.\<close>

definition cached_bars :: "strategy \<Rightarrow> bar_type \<Rightarrow> bar list" where
  "cached_bars s bt = (case map_of (u_bars s) bt of None \<Rightarrow> [] | Some d \<Rightarrow> items d)"

text \<open>
  Every deque of the cache was made with the strategy's \<^verbatim>\<open>bar_capacity\<close> and holds no
  more than its \<^verbatim>\<open>maxlen\<close>, as a Python deque does.
\<close>

definition deques_bounded :: "strategy \<Rightarrow> bool" where
  "deques_bounded s =
     (\<forall>bt d. map_of (u_bars s) bt = Some d \<longrightarrow>
        maxlen d = nat (bar_capacity s) \<and> length (items d) \<le> nat (bar_capacity s))"

text \<open>
  A run of \<^verbatim>\<open>handle_bar\<close> calls, in order, followed up to the first call that an
  exception cuts short: \<open>Inr s'\<close> is a run in which every call ran to its end.
\<close>

fun handle_bars :: "hooks \<Rightarrow> (bar_type \<times> bar) list \<Rightarrow> strategy \<Rightarrow> outcome" where
  "handle_bars h [] s = Inr s"
| "handle_bars h ((bt, b) # rest) s = and_then (handle_bar h bt b s) (handle_bars h rest)"

text \<open>The bars of a run that were delivered for one bar type, oldest first.\<close>

definition delivered :: "bar_type \<Rightarrow> (bar_type \<times> bar) list \<Rightarrow> bar list" where
  "delivered bt calls = map snd (filter (\<lambda>c. fst c = bt) calls)"

text \<open>
  The indicator registry as \<^verbatim>\<open>register_indicator\<close> keeps it: a bar type with a list of
  indicators has a list of updaters.
\<close>

definition registry_paired :: "strategy \<Rightarrow> bool" where
  "registry_paired s =
     (\<forall>bt. has_key (u_indicators s) bt = has_key (u_indicator_updaters s) bt)"

text \<open>
  A user hook that leaves the market data cache and the indicator registry as they are
  (it returns or raises).
\<close>

definition keeps_market_data :: "hook \<Rightarrow> bool" where
  "keeps_market_data f =
     (\<forall>s. u_bars (snd (f s)) = u_bars s \<and>
          bar_capacity (snd (f s)) = bar_capacity s \<and>
          u_indicators (snd (f s)) = u_indicators s \<and>
          u_indicator_updaters (snd (f s)) = u_indicator_updaters s)"

text \<open>Every indicator reference of the registry, list after list.\<close>

definition registered_indicators :: "strategy \<Rightarrow> indicator_ref list" where
  "registered_indicators s = concat (map snd (u_indicators s))"

text \<open>
  The order ledger: the three registers, the parent to children map of atomic orders and
  the buffer of modify commands.
\<close>

definition ledger ::
  "strategy \<Rightarrow>
   (order_id \<times> order) list \<times> (order_id \<times> order) list \<times> (order_id \<times> order) list \<times>
   (order_id \<times> order_id list) list \<times> (order_id \<times> modify_order_command) list" where
  "ledger s =
     (u_entry_orders s, u_stop_loss_orders s, u_take_profit_orders s, u_atomic_order_ids s,
      u_modify_order_buffer s)"

text \<open>A user hook that leaves the ledger as it is.\<close>

definition keeps_ledger :: "hook \<Rightarrow> bool" where
  "keeps_ledger f = (\<forall>s. ledger (snd (f s)) = ledger s)"

text \<open>In how many of the three registers an order identifier is a key.\<close>

definition register_count :: "strategy \<Rightarrow> order_id \<Rightarrow> nat" where
  "register_count s x =
     (if has_key (u_entry_orders s) x then 1 else 0) +
     (if has_key (u_stop_loss_orders s) x then 1 else 0) +
     (if has_key (u_take_profit_orders s) x then 1 else 0)"

definition absent_from_registers :: "strategy \<Rightarrow> order_id \<Rightarrow> bool" where
  "absent_from_registers s x =
     (\<not> has_key (u_entry_orders s) x \<and> \<not> has_key (u_stop_loss_orders s) x \<and>
      \<not> has_key (u_take_profit_orders s) x)"

text \<open>
  The rejection of the stop-loss \<open>x\<close> looks up the position of \<open>x\<close> in the body of
  \<^verbatim>\<open>handle_event\<close>: a portfolio is registered and holds a position for \<open>x\<close>.
\<close>

definition position_held :: "strategy \<Rightarrow> order_id \<Rightarrow> bool" where
  "position_held s x =
     (case u_portfolio s of
        None \<Rightarrow> False
      | Some pf \<Rightarrow> get_position_for_order pf x \<noteq> None)"

text \<open>
  The order that flattens position \<open>p\<close>, in the spec's words: a market order on the
  opposite side with the position's quantity, labelled EXIT. Its identifier is the one
  the order factory's generator prints for counter value \<open>k\<close>.
\<close>

definition exit_order :: "strategy \<Rightarrow> nat \<Rightarrow> position \<Rightarrow> order" where
  "exit_order s k p =
     \<lparr>oid = OrderId (identifier_text (id_generator (order_factory s)) (clock s) k),
      order_symbol = position_symbol p,
      side = (if market_position p = LONG then SELL else BUY),
      type_of_order = MARKET,
      quantity = position_quantity p,
      price = None,
      order_label = Some (Label ''EXIT''),
      is_active = False\<rparr>"

text \<open>
  The calls \<^verbatim>\<open>flatten_all_positions\<close> is to make for a list of positions, in order: a
  flat position gets a warning, any other position is logged and its exit order
  submitted. \<open>k\<close> is the order factory's counter and \<open>g\<close> the number of GUIDs handed out
  before.
\<close>

fun flatten_effects ::
  "strategy \<Rightarrow> nat \<Rightarrow> nat \<Rightarrow> (position_id \<times> position) list \<Rightarrow> effect list" where
  "flatten_effects s k g [] = []"
| "flatten_effects s k g ((position_id, p) # rest) =
     (if position_is_flat p
      then Log WARNING (MsgAlreadyFlat position_id) # flatten_effects s k g rest
      else
        [Log INFO (MsgFlattening p),
         Log INFO (MsgSubmitting (exit_order s (Suc k) p) position_id),
         ExecuteCommand
           (SubmitOrder (trader_id s) (strategy_id s) position_id (exit_order s (Suc k) p)
              (Guid g) (time_now (clock s)))] @
        flatten_effects s (Suc k) (Suc g) rest)"

definition open_positions :: "(position_id \<times> position) list \<Rightarrow> (position_id \<times> position) list" where
  "open_positions ps = filter (\<lambda>pp. \<not> position_is_flat (snd pp)) ps"

text \<open>
  The calls \<^verbatim>\<open>cancel_all_orders\<close> is to make for the orders the execution client lists:
  a CancelOrder for every active one, in order.
\<close>

fun cancel_effects ::
  "strategy \<Rightarrow> string \<Rightarrow> nat \<Rightarrow> (order_id \<times> order) list \<Rightarrow> effect list" where
  "cancel_effects s reason g [] = []"
| "cancel_effects s reason g ((order_id, ord) # rest) =
     (if is_active ord
      then ExecuteCommand
             (CancelOrder (trader_id s) (strategy_id s) order_id reason (Guid g)
                (time_now (clock s))) #
           cancel_effects s reason (Suc g) rest
      else cancel_effects s reason g rest)"

definition active_orders :: "(order_id \<times> order) list \<Rightarrow> (order_id \<times> order) list" where
  "active_orders os = filter (\<lambda>oo. is_active (snd oo)) os"

text \<open>
  What \<^verbatim>\<open>stop\<close> is to do about positions and orders, from its two flags and the answers
  of the portfolio \<open>pf\<close> and the execution client \<open>c\<close>.
\<close>

definition flattens_on_stop :: "strategy \<Rightarrow> portfolio \<Rightarrow> bool" where
  "flattens_on_stop s pf = (flatten_on_stop s \<and> \<not> is_strategy_flat pf (strategy_id s))"

definition exits_on_stop :: "strategy \<Rightarrow> portfolio \<Rightarrow> (position_id \<times> position) list" where
  "exits_on_stop s pf =
     (if flattens_on_stop s pf then open_positions (get_positions_active pf (strategy_id s))
      else [])"

definition flatten_on_stop_effects :: "strategy \<Rightarrow> portfolio \<Rightarrow> effect list" where
  "flatten_on_stop_effects s pf =
     (if flattens_on_stop s pf
      then (if get_positions_active pf (strategy_id s) = []
            then [Log WARNING MsgNoActivePositions]
            else flatten_effects s (counter (id_generator (order_factory s))) (u_guid_factory s)
                   (get_positions_active pf (strategy_id s)))
      else [])"

definition cancels_on_stop :: "strategy \<Rightarrow> execution_client \<Rightarrow> (order_id \<times> order) list" where
  "cancels_on_stop s c =
     (if cancel_all_orders_on_stop s then active_orders (get_orders c (strategy_id s)) else [])"

definition cancel_on_stop_effects :: "strategy \<Rightarrow> portfolio \<Rightarrow> execution_client \<Rightarrow> effect list" where
  "cancel_on_stop_effects s pf c =
     (if cancel_all_orders_on_stop s
      then cancel_effects s ''STOPPING STRATEGY''
             (u_guid_factory s + length (exits_on_stop s pf)) (get_orders c (strategy_id s))
      else [])"

text \<open>
  The strategy after its order factory has built \<open>k\<close> more orders, its GUID factory has
  handed out \<open>g\<close> more GUIDs and the calls \<open>es\<close> have been made, in this order, to the
  logger, the clock and the execution client.
\<close>

definition after_calls :: "nat \<Rightarrow> nat \<Rightarrow> effect list \<Rightarrow> strategy \<Rightarrow> strategy" where
  "after_calls k g es s =
     s\<lparr>u_guid_factory := u_guid_factory s + g,
       order_factory :=
         (order_factory s)\<lparr>id_generator :=
            (id_generator (order_factory s))\<lparr>counter :=
               counter (id_generator (order_factory s)) + k\<rparr>\<rparr>,
       trace := trace s @ es\<rparr>"

text \<open>
  The ModifyOrder command \<^verbatim>\<open>modify_order\<close> builds for an order and a new price: it
  carries the next GUID and the clock's time.
\<close>

definition built_modify_order :: "strategy \<Rightarrow> order \<Rightarrow> price \<Rightarrow> modify_order_command" where
  "built_modify_order s ord p =
     \<lparr>mo_trader_id = trader_id s, mo_strategy_id = strategy_id s, mo_order_id = oid ord,
      modified_price = p, mo_command_id = Guid (u_guid_factory s),
      mo_timestamp = time_now (clock s)\<rparr>"

text \<open>The commands among a list of calls, in order.\<close>

fun commands :: "effect list \<Rightarrow> command list" where
  "commands [] = []"
| "commands (ExecuteCommand cmd # es) = cmd # commands es"
| "commands (e # es) = commands es"

subsection \<open>A strategy to run the theorems on\<close>

text \<open>
  A user strategy whose hooks write to the strategy's log what they find when they are
  called, through the strategy's own \<^verbatim>\<open>last_tick\<close>, \<^verbatim>\<open>last_bar\<close> and \<^verbatim>\<open>is_running\<close>.
\<close>

definition LoggingStrategy_hooks :: hooks where
  "LoggingStrategy_hooks =
     \<lparr>on_start = (\<lambda>s. (None, write_log INFO (MsgUser ''on_start'') s)),
      on_tick = (\<lambda>t s.
        (None, write_log INFO
                 (MsgUser (if last_tick (tick_symbol t) s = Inr t
                           then ''on_tick: the tick is the last tick''
                           else ''on_tick: the tick is not the last tick'')) s)),
      on_bar = (\<lambda>bt b s.
        (None, write_log INFO
                 (MsgUser (if last_bar bt s = Inr b
                           then ''on_bar: the bar is the last bar''
                           else ''on_bar: the bar is not the last bar'')) s)),
      on_event = (\<lambda>ev s. (None, write_log INFO (MsgUser ''on_event'') s)),
      on_stop = (\<lambda>s.
        (None, write_log INFO
                 (MsgUser (if is_running s then ''on_stop: is_running is True''
                           else ''on_stop: is_running is False'')) s)),
      on_reset = (\<lambda>s.
        (None, write_log INFO
                 (MsgUser (if u_ticks s = [] \<and> u_bars s = []
                           then ''on_reset: the caches are empty''
                           else ''on_reset: the caches are not empty'')) s))\<rparr>"

text \<open>
  An \<^verbatim>\<open>EmptyStrategy\<close> with tag "EMA-001" and \<^verbatim>\<open>bar_capacity=3\<close> on the test clock, as
  its constructor leaves it. Its indicator objects are warm after two bars.
\<close>

definition example_indicator :: indicator where
  "example_indicator = \<lparr>inputs = [], warm = (\<lambda>bs. 2 \<le> length bs)\<rparr>"

definition fresh_strategy :: strategy where
  "fresh_strategy =
     projr (TradeStrategy_init ''EmptyStrategy'' ''EMA-001'' True True True 3 test_clock
              (\<lambda>r. example_indicator))"

definition example_bar_type :: bar_type where
  "example_bar_type = BarType (Symbol ''AUDUSD'' ''FXCM'') ''1-MINUTE-BID''"

definition example_bar :: "nat \<Rightarrow> bar" where
  "example_bar n =
     \<lparr>bar_open = 1, bar_high = 2, bar_low = 1, bar_close = 1, bar_volume = n,
      bar_timestamp = clock_time test_clock\<rparr>"

text \<open>The same strategy with indicator object 0 registered for the bar type, started.\<close>

definition watching_strategy :: strategy where
  "watching_strategy =
     start EmptyStrategy_hooks (register_indicator example_bar_type 0 fresh_strategy)"

definition example_tick :: tick where
  "example_tick =
     \<lparr>tick_symbol = Symbol ''AUDUSD'' ''FXCM'', bid = 1, ask = 2,
      tick_timestamp = clock_time test_clock\<rparr>"

text \<open>
  The strategy with the indicator registered, not started, after one tick and one bar
  have come in.
\<close>

definition primed_strategy :: strategy where
  "primed_strategy =
     resume (handle_bar EmptyStrategy_hooks example_bar_type (example_bar 1)
               (handle_tick EmptyStrategy_hooks example_tick
                  (register_indicator example_bar_type 0 fresh_strategy)))"

text \<open>
  An atomic BUY: entry O-1, stop-loss O-2, take-profit O-3, for position P-1. The
  portfolio knows position P-1 (long, entered) for each of the three orders and lists
  it, with a second position P-2 (short), as active; the execution client lists the
  entry order as active, at price 1.2000.
\<close>

definition example_order :: "string \<Rightarrow> order_side \<Rightarrow> order_type \<Rightarrow> price \<Rightarrow> order" where
  "example_order i sd ty p =
     \<lparr>oid = OrderId i, order_symbol = Symbol ''AUDUSD'' ''FXCM'', side = sd,
      type_of_order = ty, quantity = 100000, price = Some p, order_label = None,
      is_active = True\<rparr>"

definition price_1_2000 :: price where
  "price_1_2000 = 12000 / 10000"

definition price_1_2005 :: price where
  "price_1_2005 = 12005 / 10000"

definition example_atomic_order :: atomic_order where
  "example_atomic_order =
     \<lparr>entry = example_order ''O-1'' BUY STOP_MARKET price_1_2000,
      stop_loss = example_order ''O-2'' SELL STOP_MARKET (11900 / 10000),
      take_profit = Some (example_order ''O-3'' SELL LIMIT (12100 / 10000))\<rparr>"

definition example_position :: "string \<Rightarrow> market_position \<Rightarrow> position" where
  "example_position i mp =
     \<lparr>pid = PositionId i, position_symbol = Symbol ''AUDUSD'' ''FXCM'', market_position = mp,
      position_quantity = 100000, is_entered = True\<rparr>"

definition example_portfolio :: portfolio where
  "example_portfolio =
     \<lparr>get_position_for_order = (\<lambda>x. Some (example_position ''P-1'' LONG)),
      get_position =
        (\<lambda>i. if i = PositionId ''P-1'' then Some (example_position ''P-1'' LONG)
              else if i = PositionId ''P-2'' then Some (example_position ''P-2'' SHORT)
              else None),
      get_positions_active =
        (\<lambda>sid. [(PositionId ''P-1'', example_position ''P-1'' LONG),
                 (PositionId ''P-2'', example_position ''P-2'' SHORT)]),
      is_strategy_flat = (\<lambda>sid. False)\<rparr>"

definition example_client :: execution_client where
  "example_client =
     \<lparr>get_order =
        (\<lambda>x. if x = OrderId ''O-1'' then Some (entry example_atomic_order) else None),
      get_orders = (\<lambda>sid. [(OrderId ''O-1'', entry example_atomic_order)]),
      get_portfolio = example_portfolio\<rparr>"

definition connected_strategy :: strategy where
  "connected_strategy = register_execution_client example_client fresh_strategy"

text \<open>The connected strategy after the atomic order was submitted for position P-1.\<close>

definition submitted_strategy :: strategy where
  "submitted_strategy =
     projr (submit_atomic_order example_atomic_order (PositionId ''P-1'') connected_strategy)"

text \<open>
  A strategy on which one order was registered twice: as an entry and as a stop-loss.
\<close>

definition twice_registered_strategy :: strategy where
  "twice_registered_strategy =
     register_stop_loss_order (entry example_atomic_order) (PositionId ''P-1'')
       (register_entry_order (entry example_atomic_order) (PositionId ''P-1'') fresh_strategy)"

text \<open>
  A strategy with no execution client, on which the stop-loss order O-2 was registered.
\<close>

definition unconnected_strategy :: strategy where
  "unconnected_strategy =
     register_stop_loss_order (stop_loss example_atomic_order) (PositionId ''P-1'')
       fresh_strategy"

text \<open>The strategy with the atomic order submitted, started.\<close>

definition running_strategy :: strategy where
  "running_strategy = start EmptyStrategy_hooks submitted_strategy"

text \<open>The running strategy after it has sent a modify of the entry order to 1.2005.\<close>

definition busy_strategy :: strategy where
  "busy_strategy =
     resume (modify_order (entry example_atomic_order) price_1_2005 running_strategy)"

section \<open>Dictionaries, hooks and the log\<close>

lemma has_key_update [simp]: "has_key (AList.update k v d) k' = (k' = k \<or> has_key d k')"
  by (auto simp: has_key_def AList.update_conv')

lemma has_key_delete [simp]: "has_key (AList.delete k d) k' = (k' \<noteq> k \<and> has_key d k')"
  by (auto simp: has_key_def AList.delete_conv')

lemma has_key_Nil [simp]: "has_key [] k = False"
  by (simp add: has_key_def)

lemma call_hook_market_data [simp]:
  "u_bars (call_hook f s) = u_bars (snd (f s))"
  "bar_capacity (call_hook f s) = bar_capacity (snd (f s))"
  "u_indicators (call_hook f s) = u_indicators (snd (f s))"
  "u_indicator_updaters (call_hook f s) = u_indicator_updaters (snd (f s))"
  by (auto simp: call_hook_def write_log_def split: prod.splits option.splits)

lemma fresh_strategy_eq:
  "fresh_strategy =
     \<lparr>trader_id = TraderId ''Trader-000'',
      strategy_id = StrategyId ''EmptyStrategy-EMA-001'',
      strategy_id_tag_trader = ''000'',
      strategy_id_tag_strategy = ''EMA-001'',
      u_guid_factory = 0,
      clock = test_clock,
      flatten_on_sl_reject = True,
      flatten_on_stop = True,
      cancel_all_orders_on_stop = True,
      order_factory = \<lparr>id_generator = test_order_id_generator\<rparr>,
      position_id_generator = test_order_id_generator\<lparr>prefix := ''P''\<rparr>,
      u_entry_orders = [],
      u_stop_loss_orders = [],
      u_take_profit_orders = [],
      u_atomic_order_ids = [],
      bar_capacity = 3,
      u_ticks = [],
      u_bars = [],
      u_indicators = [],
      u_indicator_updaters = [],
      u_modify_order_buffer = [],
      u_exec_client = None,
      u_portfolio = None,
      is_exec_client_registered = False,
      is_portfolio_registered = False,
      is_running = False,
      heap = (\<lambda>r. example_indicator),
      trace = []\<rparr>"
  by (simp add: fresh_strategy_def TradeStrategy_init_def valid_string_def and_then_def
      OrderIdGenerator_def PositionIdGenerator_def IdentifierGenerator_init_def
      test_order_id_generator_def)

lemma watching_strategy_eq:
  "watching_strategy =
     fresh_strategy
       \<lparr>u_indicators := [(example_bar_type, [0])],
        u_indicator_updaters := [(example_bar_type, [0])],
        is_running := True,
        trace := [Log INFO MsgStarting, SetIsRunning True, Log INFO MsgRunning]\<rparr>"
  by (simp add: watching_strategy_def start_def register_indicator_def append_at_def
      write_log_def call_hook_def EmptyStrategy_hooks_def fresh_strategy_eq Let_def has_key_def
      set_is_running_def)

lemma primed_strategy_eq:
  "primed_strategy =
     fresh_strategy
       \<lparr>u_ticks := [(Symbol ''AUDUSD'' ''FXCM'', example_tick)],
        u_bars := [(example_bar_type, \<lparr>maxlen = 3, items = [example_bar 1]\<rparr>)],
        u_indicators := [(example_bar_type, [0])],
        u_indicator_updaters := [(example_bar_type, [0])],
        heap := (\<lambda>r. example_indicator)(0 := indicator_update (example_bar 1) example_indicator)\<rparr>"
  by (simp add: primed_strategy_def handle_bar_def handle_tick_def register_indicator_def
      append_at_def fresh_strategy_eq Let_def has_key_def example_tick_def and_then_def
      appendleft_def update_bar_def resume_def)

lemma deliver_event_EmptyStrategy [simp]: "deliver_event EmptyStrategy_hooks ev e = e"
  by (simp add: deliver_event_def call_hook_def EmptyStrategy_hooks_def)

section \<open>Identifier generation\<close>

lemma digit_char_not_dash: "d < 10 \<Longrightarrow> digit_char d \<noteq> CHR ''-''"
  unfolding digit_char_def
  by (simp add: char_of_eq_iff take_bit_eq_mod)

lemma str_nat_no_dash: "CHR ''-'' \<notin> set (str_nat n)"
proof (induction n rule: str_nat.induct)
  case (1 n)
  show ?case
  proof (cases "n < 10")
    case True
    then show ?thesis using digit_char_not_dash [of n] by (subst str_nat.simps) auto
  next
    case False
    have "n mod 10 < 10" by simp
    then have "digit_char (n mod 10) \<noteq> CHR ''-''" by (rule digit_char_not_dash)
    with False 1 show ?thesis by (subst str_nat.simps) auto
  qed
qed

lemma digit_val_char: "d < 10 \<Longrightarrow> digit_val (digit_char d) = d"
  by (simp add: digit_val_def digit_char_def)

lemma parse_str_nat: "parse_nat (str_nat n) = n"
proof (induction n rule: str_nat.induct)
  case (1 n)
  show ?case
  proof (cases "n < 10")
    case True
    then show ?thesis by (subst str_nat.simps) (simp add: parse_nat_def digit_val_char)
  next
    case False
    with 1 have ih: "parse_nat (str_nat (n div 10)) = n div 10" by simp
    have "parse_nat (str_nat n) =
          10 * parse_nat (str_nat (n div 10)) + digit_val (digit_char (n mod 10))"
      using False by (subst str_nat.simps) (simp add: parse_nat_def)
    then show ?thesis using ih by (simp add: digit_val_char)
  qed
qed

lemma str_nat_inj: "str_nat a = str_nat b \<Longrightarrow> a = b"
  by (metis parse_str_nat)

text \<open>The counter is the text after the last dash, so it can be read back.\<close>

lemma counter_after_last_dash:
  assumes "A @ CHR ''-'' # str_nat a = B @ CHR ''-'' # str_nat b"
  shows "a = b"
proof -
  have tail: "\<And>X n. takeWhile (\<lambda>c. c \<noteq> CHR ''-'') (rev (X @ CHR ''-'' # str_nat n)) =
                     rev (str_nat n)"
  proof -
    fix X n
    have "takeWhile (\<lambda>c. c \<noteq> CHR ''-'') (rev (str_nat n) @ CHR ''-'' # rev X) =
          rev (str_nat n) @ takeWhile (\<lambda>c. c \<noteq> CHR ''-'') (CHR ''-'' # rev X)"
      by (rule takeWhile_append2) (use str_nat_no_dash in auto)
    then show "takeWhile (\<lambda>c. c \<noteq> CHR ''-'') (rev (X @ CHR ''-'' # str_nat n)) =
               rev (str_nat n)"
      by simp
  qed
  then have "rev (str_nat a) = rev (str_nat b)" using assms by metis
  then show ?thesis using str_nat_inj by simp
qed

lemma identifier_text_counter [simp]:
  "identifier_text (g\<lparr>counter := k\<rparr>) c n = identifier_text g c n"
  by (simp add: identifier_text_def)

lemma generate_eq:
  "IdentifierGenerator_generate c g =
     (identifier_text g c (counter g + 1), g\<lparr>counter := counter g + 1\<rparr>)"
  by (simp add: IdentifierGenerator_generate_def identifier_text_def Let_def)

lemma generate_run_fst:
  "fst (generate_run cs g) =
     map (\<lambda>(k, c). identifier_text g c k) (List.enumerate (counter g + 1) cs)"
proof (induction cs arbitrary: g)
  case Nil
  then show ?case by simp
next
  case (Cons c cs)
  show ?case
    using Cons.IH [of "g\<lparr>counter := counter g + 1\<rparr>"]
    by (auto simp: generate_eq split: prod.splits)
qed

lemma generate_run_snd:
  "snd (generate_run cs g) = g\<lparr>counter := counter g + length cs\<rparr>"
proof (induction cs arbitrary: g)
  case Nil
  then show ?case by simp
next
  case (Cons c cs)
  show ?case
    using Cons.IH [of "g\<lparr>counter := counter g + 1\<rparr>"]
    by (auto simp: generate_eq split: prod.splits)
qed

lemma identifier_text_inj:
  assumes "identifier_text g c k = identifier_text g c' k'"
  shows "k = k'"
proof -
  have "(prefix g @ ''-'' @ get_datetime_tag c @ ''-'' @ id_tag_trader g @ ''-'' @
          id_tag_strategy g) @ CHR ''-'' # str_nat k =
        (prefix g @ ''-'' @ get_datetime_tag c' @ ''-'' @ id_tag_trader g @ ''-'' @
          id_tag_strategy g) @ CHR ''-'' # str_nat k'"
    using assms by (simp add: identifier_text_def)
  then show ?thesis by (rule counter_after_last_dash)
qed

lemma generate_run_distinct: "distinct (fst (generate_run cs g))"
proof -
  let ?f = "\<lambda>(k, c). identifier_text g c k"
  let ?xs = "List.enumerate (counter g + 1) cs"
  have d: "distinct ?xs" by (simp add: distinct_enumerate)
  have "inj_on ?f (set ?xs)"
  proof (rule inj_onI)
    fix p q assume p: "p \<in> set ?xs" and q: "q \<in> set ?xs" and e: "?f p = ?f q"
    from e have "fst p = fst q"
      using identifier_text_inj by (cases p, cases q) auto
    with p q show "p = q"
      by (auto simp: in_set_enumerate_eq prod_eq_iff)
  qed
  with d show ?thesis by (simp add: generate_run_fst distinct_map)
qed


section \<open>Market data: the bar cache and the indicators\<close>

lemma handle_bar_eq:
  assumes "registry_paired s" "0 \<le> bar_capacity s"
  shows "handle_bar h bt b s =
    Inr (if is_running s then call_hook (on_bar h bt b) (feed_updaters bt b (cache_bar bt b s))
         else feed_updaters bt b (cache_bar bt b s))"
proof -
  let ?d0 = "\<lparr>maxlen = nat (bar_capacity s), items = []\<rparr>"
  let ?bars1 = "if \<not> has_key (u_bars s) bt then AList.update bt ?d0 (u_bars s) else u_bars s"
  let ?d = "case map_of (u_bars s) bt of None \<Rightarrow> ?d0 | Some d \<Rightarrow> d"
  have d: "map_of ?bars1 bt = Some ?d"
    by (auto simp: has_key_def AList.update_conv')
  have u: "AList.update bt (appendleft b ?d) ?bars1 = u_bars (cache_bar bt b s)"
    by (simp add: cache_bar_def)
  have s1: "s\<lparr>u_bars := AList.update bt (appendleft b ?d) ?bars1\<rparr> = cache_bar bt b s"
    unfolding u by (simp add: cache_bar_def)
  have k: "\<not> (\<not> has_key (u_bars s) bt \<and> bar_capacity s < 0)"
    using assms(2) by simp
  have ind: "u_indicators (cache_bar bt b s) = u_indicators s"
     "u_indicator_updaters (cache_bar bt b s) = u_indicator_updaters s"
     "is_running (cache_bar bt b s) = is_running s"
    by (simp_all add: cache_bar_def)
  have feed: "(if has_key (u_indicators (cache_bar bt b s)) bt
        then (case map_of (u_indicator_updaters (cache_bar bt b s)) bt of
                None \<Rightarrow> Inl (KeyError, cache_bar bt b s)
              | Some updaters \<Rightarrow>
                  Inr ((cache_bar bt b s)\<lparr>heap := fold (update_bar b) updaters
                                                  (heap (cache_bar bt b s))\<rparr>))
        else Inr (cache_bar bt b s)) = Inr (feed_updaters bt b (cache_bar bt b s))"
    using assms(1)
    by (auto simp: ind registry_paired_def has_key_def feed_updaters_def bound_updaters_def
        split: option.splits)
  have run: "is_running (feed_updaters bt b (cache_bar bt b s)) = is_running s"
    by (simp add: feed_updaters_def cache_bar_def)
  show ?thesis
    unfolding handle_bar_def Let_def
    apply (simp only: k if_False d option.case s1 feed)
    apply (simp add: and_then_def run)
    done
qed

lemma take_Cons_take: "take n (x # take n xs) = take n (x # xs)"
  by (cases n) simp_all

lemma engine_fields [simp]:
  "u_bars (feed_updaters bt b s) = u_bars s"
  "bar_capacity (feed_updaters bt b s) = bar_capacity s"
  "u_indicators (feed_updaters bt b s) = u_indicators s"
  "u_indicator_updaters (feed_updaters bt b s) = u_indicator_updaters s"
  "bar_capacity (cache_bar bt b s) = bar_capacity s"
  "u_indicators (cache_bar bt b s) = u_indicators s"
  "u_indicator_updaters (cache_bar bt b s) = u_indicator_updaters s"
  by (simp_all add: feed_updaters_def cache_bar_def)

lemma cached_bars_cache_bar:
  assumes "deques_bounded s"
  shows "cached_bars (cache_bar bt b s) bt' =
     (if bt' = bt then take (nat (bar_capacity s)) (b # cached_bars s bt) else cached_bars s bt')"
  using assms
  by (auto simp: cached_bars_def cache_bar_def AList.update_conv' appendleft_def deques_bounded_def
      split: option.splits)

lemma has_key_cache_bar:
  "has_key (u_bars (cache_bar bt b s)) bt' = (bt' = bt \<or> has_key (u_bars s) bt')"
  by (simp add: cache_bar_def)

lemma deques_bounded_cache_bar:
  assumes "deques_bounded s"
  shows "deques_bounded (cache_bar bt b s)"
  unfolding deques_bounded_def
proof (intro allI impI)
  fix bt' d assume d: "map_of (u_bars (cache_bar bt b s)) bt' = Some d"
  show "maxlen d = nat (bar_capacity (cache_bar bt b s)) \<and>
        length (items d) \<le> nat (bar_capacity (cache_bar bt b s))"
  proof (cases "bt' = bt")
    case True
    then show ?thesis using d assms
      by (auto simp: cache_bar_def AList.update_conv' appendleft_def deques_bounded_def
          split: option.splits)
  next
    case False
    then have "map_of (u_bars s) bt' = Some d"
      using d by (simp add: cache_bar_def AList.update_conv')
    then show ?thesis using assms by (simp add: deques_bounded_def)
  qed
qed

lemma registry_paired_cong:
  "u_indicators s' = u_indicators s \<Longrightarrow> u_indicator_updaters s' = u_indicator_updaters s \<Longrightarrow>
   registry_paired s' = registry_paired s"
  by (simp add: registry_paired_def)

lemma deques_bounded_cong:
  "u_bars s' = u_bars s \<Longrightarrow> bar_capacity s' = bar_capacity s \<Longrightarrow>
   deques_bounded s' = deques_bounded s"
  by (simp add: deques_bounded_def)

lemma cached_bars_cong: "u_bars s' = u_bars s \<Longrightarrow> cached_bars s' bt = cached_bars s bt"
  by (simp add: cached_bars_def)

lemma handle_bar_step:
  assumes keep: "keeps_market_data (on_bar h bt b)"
    and inv: "registry_paired s" "0 \<le> bar_capacity s" "deques_bounded s"
  shows "\<exists>s'. handle_bar h bt b s = Inr s' \<and> registry_paired s' \<and>
     bar_capacity s' = bar_capacity s \<and> deques_bounded s' \<and>
     (\<forall>bt'. cached_bars s' bt' =
        (if bt' = bt then take (nat (bar_capacity s)) (b # cached_bars s bt)
         else cached_bars s bt')) \<and>
     (\<forall>bt'. has_key (u_bars s') bt' = (bt' = bt \<or> has_key (u_bars s) bt'))"
proof -
  let ?e = "feed_updaters bt b (cache_bar bt b s)"
  let ?s' = "if is_running s then call_hook (on_bar h bt b) ?e else ?e"
  have same: "u_bars ?s' = u_bars ?e" "bar_capacity ?s' = bar_capacity ?e"
    "u_indicators ?s' = u_indicators ?e" "u_indicator_updaters ?s' = u_indicator_updaters ?e"
    using keep by (simp_all add: keeps_market_data_def)
  have e: "u_bars ?e = u_bars (cache_bar bt b s)" "bar_capacity ?e = bar_capacity s"
    "u_indicators ?e = u_indicators s" "u_indicator_updaters ?e = u_indicator_updaters s"
    by simp_all
  have 1: "handle_bar h bt b s = Inr ?s'"
    using inv(1,2) by (rule handle_bar_eq)
  have 2: "registry_paired ?s'"
    using inv(1) registry_paired_cong [of ?s' s] same e by simp
  have 3: "bar_capacity ?s' = bar_capacity s" using same e by simp
  have 4: "deques_bounded ?s'"
    using deques_bounded_cache_bar [OF inv(3), of bt b]
      deques_bounded_cong [of ?s' "cache_bar bt b s"] same e by simp
  have 5: "\<forall>bt'. cached_bars ?s' bt' =
        (if bt' = bt then take (nat (bar_capacity s)) (b # cached_bars s bt)
         else cached_bars s bt')"
    using cached_bars_cache_bar [OF inv(3)] cached_bars_cong [of ?s' "cache_bar bt b s"] same e
    by simp
  have 6: "\<forall>bt'. has_key (u_bars ?s') bt' = (bt' = bt \<or> has_key (u_bars s) bt')"
    using same e has_key_cache_bar by simp
  from 1 2 3 4 5 6 show ?thesis by blast
qed

lemma handle_bars_run:
  assumes keep: "\<forall>bt b. keeps_market_data (on_bar h bt b)"
    and inv: "registry_paired s" "0 \<le> bar_capacity s" "deques_bounded s"
  shows "\<exists>s'. handle_bars h calls s = Inr s' \<and> registry_paired s' \<and>
     bar_capacity s' = bar_capacity s \<and> deques_bounded s' \<and>
     (\<forall>bt. cached_bars s' bt =
        take (nat (bar_capacity s)) (rev (delivered bt calls) @ cached_bars s bt)) \<and>
     (\<forall>bt. has_key (u_bars s') bt = (delivered bt calls \<noteq> [] \<or> has_key (u_bars s) bt))"
  using inv
proof (induction calls arbitrary: s)
  case Nil
  have "\<forall>bt. length (cached_bars s bt) \<le> nat (bar_capacity s)"
  proof
    fix bt show "length (cached_bars s bt) \<le> nat (bar_capacity s)"
    proof (cases "map_of (u_bars s) bt")
      case None
      then show ?thesis by (simp add: cached_bars_def)
    next
      case (Some d)
      then show ?thesis using Nil(3) by (simp add: deques_bounded_def cached_bars_def)
    qed
  qed
  then show ?case using Nil by (simp add: delivered_def)
next
  case (Cons c calls)
  obtain bt b where c: "c = (bt, b)" by (cases c)
  from keep have "keeps_market_data (on_bar h bt b)" by simp
  from handle_bar_step [OF this Cons.prems]
  obtain s1 where s1: "handle_bar h bt b s = Inr s1" "registry_paired s1"
    "bar_capacity s1 = bar_capacity s" "deques_bounded s1"
    "\<forall>bt'. cached_bars s1 bt' =
        (if bt' = bt then take (nat (bar_capacity s)) (b # cached_bars s bt)
         else cached_bars s bt')"
    "\<forall>bt'. has_key (u_bars s1) bt' = (bt' = bt \<or> has_key (u_bars s) bt')"
    by blast
  have cap1: "0 \<le> bar_capacity s1" using s1(3) Cons.prems(2) by simp
  from Cons.IH [OF s1(2) cap1 s1(4)]
  obtain s' where s': "handle_bars h calls s1 = Inr s'" "registry_paired s'"
    "bar_capacity s' = bar_capacity s1" "deques_bounded s'"
    "\<forall>bt. cached_bars s' bt =
        take (nat (bar_capacity s1)) (rev (delivered bt calls) @ cached_bars s1 bt)"
    "\<forall>bt. has_key (u_bars s') bt = (delivered bt calls \<noteq> [] \<or> has_key (u_bars s1) bt)"
    by blast
  have run: "handle_bars h (c # calls) s = Inr s'"
    using s1(1) s'(1) by (simp add: c and_then_def)
  have cached: "\<forall>bt'. cached_bars s' bt' =
        take (nat (bar_capacity s)) (rev (delivered bt' (c # calls)) @ cached_bars s bt')"
  proof
    fix bt'
    show "cached_bars s' bt' =
        take (nat (bar_capacity s)) (rev (delivered bt' (c # calls)) @ cached_bars s bt')"
    proof (cases "bt' = bt")
      case True
      have "take (nat (bar_capacity s)) (rev (delivered bt calls) @ take (nat (bar_capacity s)) (b # cached_bars s bt))
          = take (nat (bar_capacity s)) (rev (delivered bt calls) @ b # cached_bars s bt)"
        by (simp add: take_Cons_take min_def)
      then show ?thesis using s'(5) s1(5) s1(3) True by (simp add: c delivered_def)
    next
      case False
      then show ?thesis using s'(5) s1(5) s1(3) by (simp add: c delivered_def)
    qed
  qed
  have keys: "\<forall>bt'. has_key (u_bars s') bt' = (delivered bt' (c # calls) \<noteq> [] \<or> has_key (u_bars s) bt')"
    using s'(6) s1(6) by (auto simp: c delivered_def)
  from run s'(2) s'(3) s1(3) s'(4) cached keys show ?case by auto
qed

text \<open>
  C5. In every run of \<^verbatim>\<open>handle_bar\<close> calls on a strategy whose cache is empty (as the
  constructor and \<^verbatim>\<open>reset\<close> leave it), with user hooks that leave the cache and the
  registry alone, every call runs to its end (no exception cuts one short), and
  afterwards the cache of every bar type holds the
  bars delivered for it, newest first, cut to \<^verbatim>\<open>bar_capacity\<close>: \<^verbatim>\<open>bars\<close> returns them and
  \<^verbatim>\<open>last_bar\<close> the bar delivered last (both raise ValueError for a bar type that got
  no bar). With \<^verbatim>\<open>bar_capacity=3\<close>, after b1, b2, b3, b4 for BT, \<^verbatim>\<open>bars(BT)\<close> is
  [b4, b3, b2] and \<^verbatim>\<open>last_bar(BT)\<close> is b4.
\<close>

theorem bar_cache_newest_first:
  assumes "\<forall>bt b. keeps_market_data (on_bar h bt b)"
    and "registry_paired s" and "0 < bar_capacity s" and "u_bars s = []"
  shows "(\<exists>s'. handle_bars h calls s = Inr s' \<and>
      (\<forall>bt. cached_bars s' bt = take (nat (bar_capacity s)) (rev (delivered bt calls)) \<and>
            length (cached_bars s' bt) \<le> nat (bar_capacity s) \<and>
            bars bt s' =
              (if delivered bt calls = [] then Inl ValueError else Inr (cached_bars s' bt)) \<and>
            last_bar bt s' =
              (if delivered bt calls = [] then Inl ValueError
               else Inr (last (delivered bt calls))))) \<and>
    (bar_capacity s = 3 \<longrightarrow>
      (\<exists>s'. handle_bars h [(BT, b1), (BT, b2), (BT, b3), (BT, b4)] s = Inr s' \<and>
         bars BT s' = Inr [b4, b3, b2] \<and> last_bar BT s' = Inr b4))"
proof -
  have bounded: "deques_bounded s" using assms(4) by (simp add: deques_bounded_def)
  have cap: "0 \<le> bar_capacity s" using assms(3) by simp
  have empty: "\<And>bt. cached_bars s bt = []" "\<And>bt. \<not> has_key (u_bars s) bt"
    using assms(4) by (simp_all add: cached_bars_def)
  have general: "\<exists>s'. handle_bars h cs s = Inr s' \<and>
      (\<forall>bt. cached_bars s' bt = take (nat (bar_capacity s)) (rev (delivered bt cs)) \<and>
            length (cached_bars s' bt) \<le> nat (bar_capacity s) \<and>
            bars bt s' =
              (if delivered bt cs = [] then Inl ValueError else Inr (cached_bars s' bt)) \<and>
            last_bar bt s' =
              (if delivered bt cs = [] then Inl ValueError
               else Inr (last (delivered bt cs))))" for cs
  proof -
    from handle_bars_run [OF assms(1,2) cap bounded, of cs]
    obtain s' where s': "handle_bars h cs s = Inr s'"
      "\<forall>bt. cached_bars s' bt = take (nat (bar_capacity s)) (rev (delivered bt cs))"
      "\<forall>bt. has_key (u_bars s') bt = (delivered bt cs \<noteq> [])"
      using empty by auto
    have "cached_bars s' bt = take (nat (bar_capacity s)) (rev (delivered bt cs)) \<and>
            length (cached_bars s' bt) \<le> nat (bar_capacity s) \<and>
            bars bt s' =
              (if delivered bt cs = [] then Inl ValueError else Inr (cached_bars s' bt)) \<and>
            last_bar bt s' =
              (if delivered bt cs = [] then Inl ValueError
               else Inr (last (delivered bt cs)))" for bt
    proof -
      have c: "cached_bars s' bt = take (nat (bar_capacity s)) (rev (delivered bt cs))"
        using s'(2) by simp
      have k: "has_key (u_bars s') bt = (delivered bt cs \<noteq> [])" using s'(3) by simp
      show ?thesis
      proof (cases "delivered bt cs = []")
        case True
        then have "map_of (u_bars s') bt = None" using k by (simp add: has_key_def)
        then show ?thesis using True c by (simp add: bars_def last_bar_def)
      next
        case False
        then obtain d where d: "map_of (u_bars s') bt = Some d"
          using k by (auto simp: has_key_def)
        then have i: "items d = take (nat (bar_capacity s)) (rev (delivered bt cs))"
          using c by (simp add: cached_bars_def)
        obtain x xs where r: "rev (delivered bt cs) = x # xs" "x = last (delivered bt cs)"
          using False by (cases "delivered bt cs" rule: rev_cases) auto
        obtain n where n: "nat (bar_capacity s) = Suc n"
          using assms(3) by (cases "nat (bar_capacity s)") auto
        have hd: "items d = x # take n xs" using i r(1) n by simp
        have b: "bars bt s' = Inr (cached_bars s' bt)"
          using d by (simp add: bars_def cached_bars_def)
        have l: "last_bar bt s' = Inr (last (delivered bt cs))"
          using d hd r(2) by (simp add: last_bar_def)
        have "length (cached_bars s' bt) \<le> nat (bar_capacity s)" using c by simp
        then show ?thesis using False c b l by simp
      qed
    qed
    with s'(1) show ?thesis by blast
  qed
  have scenario: "\<exists>s'. handle_bars h [(BT, b1), (BT, b2), (BT, b3), (BT, b4)] s = Inr s' \<and>
         bars BT s' = Inr [b4, b3, b2] \<and> last_bar BT s' = Inr b4" if "bar_capacity s = 3"
  proof -
    from general [of "[(BT, b1), (BT, b2), (BT, b3), (BT, b4)]"]
    obtain s' where s': "handle_bars h [(BT, b1), (BT, b2), (BT, b3), (BT, b4)] s = Inr s'"
      "cached_bars s' BT = take (nat (bar_capacity s)) (rev (delivered BT [(BT, b1), (BT, b2), (BT, b3), (BT, b4)]))"
      "bars BT s' = (if delivered BT [(BT, b1), (BT, b2), (BT, b3), (BT, b4)] = [] then Inl ValueError else Inr (cached_bars s' BT))"
      "last_bar BT s' = (if delivered BT [(BT, b1), (BT, b2), (BT, b3), (BT, b4)] = [] then Inl ValueError
               else Inr (last (delivered BT [(BT, b1), (BT, b2), (BT, b3), (BT, b4)])))"
      by blast
    have "bars BT s' = Inr [b4, b3, b2]" "last_bar BT s' = Inr b4"
      using s'(2,3,4) that by (simp_all add: delivered_def numeral_3_eq_3)
    with s'(1) show ?thesis by blast
  qed
  from general [of calls] scenario show ?thesis by blast
qed

theorem bar_cache_newest_first_witness:
  "\<exists>s'. handle_bars EmptyStrategy_hooks
          [(example_bar_type, example_bar 1), (example_bar_type, example_bar 2),
           (example_bar_type, example_bar 3), (example_bar_type, example_bar 4)]
          fresh_strategy = Inr s' \<and>
        bars example_bar_type s' = Inr [example_bar 4, example_bar 3, example_bar 2] \<and>
        last_bar example_bar_type s' = Inr (example_bar 4)"
proof -
  have 1: "\<forall>bt b. keeps_market_data (on_bar EmptyStrategy_hooks bt b)"
    by (simp add: keeps_market_data_def EmptyStrategy_hooks_def)
  have 2: "registry_paired fresh_strategy"
    by (simp add: registry_paired_def fresh_strategy_eq)
  have 3: "0 < bar_capacity fresh_strategy" by (simp add: fresh_strategy_eq)
  have 4: "u_bars fresh_strategy = []" by (simp add: fresh_strategy_eq)
  have 5: "bar_capacity fresh_strategy = 3" by (simp add: fresh_strategy_eq)
  from bar_cache_newest_first [OF 1 2 3 4, of calls example_bar_type "example_bar 1"
      "example_bar 2" "example_bar 3" "example_bar 4"] 5
  show ?thesis by blast
qed

section \<open>Indicators, hooks and reset\<close>

lemma fold_update_bar:
  "fold (update_bar b) rs objs r = ((indicator_update b) ^^ occurrences r rs) (objs r)"
proof (induction rs arbitrary: objs)
  case Nil
  then show ?case by (simp add: occurrences_def)
next
  case (Cons x rs)
  show ?case
    using Cons.IH [of "update_bar b x objs"]
    by (simp add: occurrences_def update_bar_def funpow_swap1)
qed

lemma fold_reset_indicator:
  "fold reset_indicator rs objs r =
     (if r \<in> set rs then indicator_reset (objs r) else objs r)"
proof (induction rs arbitrary: objs)
  case Nil
  then show ?case by simp
next
  case (Cons x rs)
  show ?case
    using Cons.IH [of "reset_indicator x objs"]
    by (auto simp: reset_indicator_def indicator_reset_def)
qed

lemma fold_reset_lists:
  "fold (\<lambda>indicator_list objs. fold reset_indicator indicator_list objs) ls objs r =
     (if r \<in> set (concat ls) then indicator_reset (objs r) else objs r)"
proof (induction ls arbitrary: objs)
  case Nil
  then show ?case by simp
next
  case (Cons l ls)
  show ?case
    using Cons.IH [of "fold reset_indicator l objs"]
    by (auto simp: fold_reset_indicator indicator_reset_def)
qed

lemma scan_indicators_iff:
  "scan_indicators objs rs = (\<forall>r \<in> set rs. initialized (objs r))"
  by (induction rs) auto

lemma scan_indicator_lists_iff:
  "scan_indicator_lists objs ls = (\<forall>l \<in> set ls. \<forall>r \<in> set l. initialized (objs r))"
  by (induction ls) (auto simp: scan_indicators_iff)

lemma call_hook_eq:
  "call_hook f s =
     (case f s of
        (None, s') \<Rightarrow> s'
      | (Some ex, s') \<Rightarrow> s'\<lparr>trace := trace s' @ [Log EXCEPTION (MsgRaised ex)]\<rparr>)"
  by (simp add: call_hook_def write_log_def split: prod.splits option.splits)

text \<open>
  C8. \<^verbatim>\<open>handle_tick\<close> stores the tick as the last tick of its symbol, and
  \<^verbatim>\<open>handle_bar\<close> puts the bar at the front of the cache of its bar type and feeds every
  updater bound to the bar type (an indicator once per updater bound to it), whether
  the strategy is running or not. When \<^verbatim>\<open>is_running\<close> is true the user's \<^verbatim>\<open>on_tick\<close> or
  \<^verbatim>\<open>on_bar\<close> is then applied to the strategy so changed, and what it returns is the
  result (with the exception logged, when it raises); when \<^verbatim>\<open>is_running\<close> is false the
  result is the changed strategy itself, the same for any user hooks. The registry is
  as \<^verbatim>\<open>register_indicator\<close> keeps it and \<^verbatim>\<open>bar_capacity\<close> is not negative (the
  constructor makes it positive), so \<^verbatim>\<open>handle_bar\<close> runs to its end.
\<close>

theorem hooks_run_only_when_running:
  assumes "registry_paired s" and "0 \<le> bar_capacity s"
  shows "handle_tick h t s =
      (if is_running s
       then (case on_tick h t (s\<lparr>u_ticks := AList.update (tick_symbol t) t (u_ticks s)\<rparr>) of
               (None, s') \<Rightarrow> s'
             | (Some ex, s') \<Rightarrow> s'\<lparr>trace := trace s' @ [Log EXCEPTION (MsgRaised ex)]\<rparr>)
       else s\<lparr>u_ticks := AList.update (tick_symbol t) t (u_ticks s)\<rparr>)
    \<and> last_tick (tick_symbol t) (s\<lparr>u_ticks := AList.update (tick_symbol t) t (u_ticks s)\<rparr>) = Inr t
    \<and> handle_bar h bt b s =
      Inr (if is_running s
           then (case on_bar h bt b (feed_updaters bt b (cache_bar bt b s)) of
                   (None, s') \<Rightarrow> s'
                 | (Some ex, s') \<Rightarrow> s'\<lparr>trace := trace s' @ [Log EXCEPTION (MsgRaised ex)]\<rparr>)
           else feed_updaters bt b (cache_bar bt b s))
    \<and> (\<exists>d. map_of (u_bars (feed_updaters bt b (cache_bar bt b s))) bt = Some d \<and>
            items d = take (maxlen d) (b # cached_bars s bt))
    \<and> (\<forall>r. heap (feed_updaters bt b (cache_bar bt b s)) r =
            ((indicator_update b) ^^ occurrences r (bound_updaters s bt)) (heap s r))
    \<and> (\<not> is_running s \<longrightarrow>
         handle_tick h t s = handle_tick h' t s \<and> handle_bar h bt b s = handle_bar h' bt b s)"
proof -
  have tick: "handle_tick h t s =
      (if is_running s
       then (case on_tick h t (s\<lparr>u_ticks := AList.update (tick_symbol t) t (u_ticks s)\<rparr>) of
               (None, s') \<Rightarrow> s'
             | (Some ex, s') \<Rightarrow> s'\<lparr>trace := trace s' @ [Log EXCEPTION (MsgRaised ex)]\<rparr>)
       else s\<lparr>u_ticks := AList.update (tick_symbol t) t (u_ticks s)\<rparr>)" for h
    by (simp add: handle_tick_def Let_def call_hook_eq)
  have last: "last_tick (tick_symbol t)
      (s\<lparr>u_ticks := AList.update (tick_symbol t) t (u_ticks s)\<rparr>) = Inr t"
    by (simp add: last_tick_def AList.update_conv')
  have bar: "handle_bar h bt b s =
      Inr (if is_running s
           then (case on_bar h bt b (feed_updaters bt b (cache_bar bt b s)) of
                   (None, s') \<Rightarrow> s'
                 | (Some ex, s') \<Rightarrow> s'\<lparr>trace := trace s' @ [Log EXCEPTION (MsgRaised ex)]\<rparr>)
           else feed_updaters bt b (cache_bar bt b s))" for h
    unfolding handle_bar_eq [OF assms] by (simp add: call_hook_eq)
  have front: "\<exists>d. map_of (u_bars (feed_updaters bt b (cache_bar bt b s))) bt = Some d \<and>
            items d = take (maxlen d) (b # cached_bars s bt)"
    by (auto simp: cache_bar_def AList.update_conv' appendleft_def cached_bars_def
        split: option.splits)
  have fed: "\<forall>r. heap (feed_updaters bt b (cache_bar bt b s)) r =
            ((indicator_update b) ^^ occurrences r (bound_updaters s bt)) (heap s r)"
    by (simp add: feed_updaters_def fold_update_bar bound_updaters_def cache_bar_def)
  show ?thesis
    using tick [of h] tick [of h'] last bar [of h] bar [of h'] front fed by simp
qed

theorem hooks_run_only_when_running_witness:
  "registry_paired watching_strategy \<and> is_running watching_strategy \<and>
   \<not> is_running fresh_strategy \<and>
   handle_tick LoggingStrategy_hooks example_tick watching_strategy =
     watching_strategy
       \<lparr>u_ticks := [(Symbol ''AUDUSD'' ''FXCM'', example_tick)],
        trace := trace watching_strategy @
          [Log INFO (MsgUser ''on_tick: the tick is the last tick'')]\<rparr> \<and>
   handle_tick TradeStrategy_hooks example_tick watching_strategy =
     watching_strategy
       \<lparr>u_ticks := [(Symbol ''AUDUSD'' ''FXCM'', example_tick)],
        trace := trace watching_strategy @ [Log EXCEPTION (MsgRaised NotImplementedError)]\<rparr> \<and>
   handle_tick LoggingStrategy_hooks example_tick fresh_strategy =
     fresh_strategy\<lparr>u_ticks := [(Symbol ''AUDUSD'' ''FXCM'', example_tick)]\<rparr> \<and>
   (\<exists>s'. handle_bar LoggingStrategy_hooks example_bar_type (example_bar 1) watching_strategy =
           Inr s' \<and>
         bars example_bar_type s' = Inr [example_bar 1] \<and>
         inputs (heap s' 0) = [example_bar 1] \<and>
         inputs (heap s' 1) = [] \<and>
         trace s' = trace watching_strategy @
           [Log INFO (MsgUser ''on_bar: the bar is the last bar'')]) \<and>
   (\<exists>s'. handle_bar LoggingStrategy_hooks example_bar_type (example_bar 1) fresh_strategy =
           Inr s' \<and>
         bars example_bar_type s' = Inr [example_bar 1] \<and>
         trace s' = trace fresh_strategy)"
proof -
  let ?w = watching_strategy
  let ?f = fresh_strategy
  let ?sym = "Symbol ''AUDUSD'' ''FXCM''"
  have 1: "registry_paired ?w"
    by (simp add: registry_paired_def watching_strategy_eq has_key_def)
  have 2: "0 \<le> bar_capacity ?w"
    by (simp add: watching_strategy_eq fresh_strategy_eq)
  have 3: "is_running ?w" by (simp add: watching_strategy_eq)
  have 4: "registry_paired ?f"
    by (simp add: registry_paired_def fresh_strategy_eq)
  have 5: "0 \<le> bar_capacity ?f" "\<not> is_running ?f"
    by (simp_all add: fresh_strategy_eq)
  have 6: "occurrences 0 [0] = 1" "occurrences (Suc 0) [0] = 0"
    by (simp_all add: occurrences_def)
  have sym: "tick_symbol example_tick = ?sym" by (simp add: example_tick_def)
  have tw: "?w\<lparr>u_ticks := AList.update (tick_symbol example_tick) example_tick (u_ticks ?w)\<rparr> =
            ?w\<lparr>u_ticks := [(?sym, example_tick)]\<rparr>"
    by (simp add: watching_strategy_eq fresh_strategy_eq sym)
  have tf: "?f\<lparr>u_ticks := AList.update (tick_symbol example_tick) example_tick (u_ticks ?f)\<rparr> =
            ?f\<lparr>u_ticks := [(?sym, example_tick)]\<rparr>"
    by (simp add: fresh_strategy_eq sym)
  note L = hooks_run_only_when_running [OF 1 2, of LoggingStrategy_hooks example_tick
      example_bar_type "example_bar 1" EmptyStrategy_hooks]
  note R = hooks_run_only_when_running [OF 1 2, of TradeStrategy_hooks example_tick
      example_bar_type "example_bar 1" EmptyStrategy_hooks]
  note F = hooks_run_only_when_running [OF 4 5(1), of LoggingStrategy_hooks example_tick
      example_bar_type "example_bar 1" EmptyStrategy_hooks]
  have seen: "last_tick (tick_symbol example_tick) (?w\<lparr>u_ticks := [(?sym, example_tick)]\<rparr>) =
      Inr example_tick"
    using L [THEN conjunct2, THEN conjunct1] unfolding tw .
  have a: "handle_tick LoggingStrategy_hooks example_tick ?w =
     ?w\<lparr>u_ticks := [(?sym, example_tick)],
        trace := trace ?w @ [Log INFO (MsgUser ''on_tick: the tick is the last tick'')]\<rparr>"
    using L [THEN conjunct1] 3 seen unfolding tw
    by (simp add: LoggingStrategy_hooks_def write_log_def)
  have b: "handle_tick TradeStrategy_hooks example_tick ?w =
     ?w\<lparr>u_ticks := [(?sym, example_tick)],
        trace := trace ?w @ [Log EXCEPTION (MsgRaised NotImplementedError)]\<rparr>"
    using R [THEN conjunct1] 3 unfolding tw
    by (simp add: TradeStrategy_hooks_def)
  have c: "handle_tick LoggingStrategy_hooks example_tick ?f = ?f\<lparr>u_ticks := [(?sym, example_tick)]\<rparr>"
    using F [THEN conjunct1] 5(2) unfolding tf by simp
  let ?bt = example_bar_type
  let ?b = "example_bar 1"
  let ?ew = "feed_updaters ?bt ?b (cache_bar ?bt ?b ?w)"
  let ?ef = "feed_updaters ?bt ?b (cache_bar ?bt ?b ?f)"
  have bw: "bars ?bt ?ew = Inr [?b]" "last_bar ?bt ?ew = Inr ?b" "trace ?ew = trace ?w"
    by (simp_all add: bars_def last_bar_def feed_updaters_def cache_bar_def watching_strategy_eq
        fresh_strategy_eq appendleft_def)
  have bf: "bars ?bt ?ef = Inr [?b]" "trace ?ef = trace ?f"
    by (simp_all add: bars_def feed_updaters_def cache_bar_def fresh_strategy_eq appendleft_def)
  have e: "bound_updaters ?w ?bt = [0]"
    by (simp add: bound_updaters_def watching_strategy_eq)
  have hw: "heap ?w r = example_indicator" for r
    by (simp add: watching_strategy_eq fresh_strategy_eq)
  have fedw: "\<forall>r. heap ?ew r =
            ((indicator_update ?b) ^^ occurrences r (bound_updaters ?w ?bt)) (heap ?w r)"
    using L by blast
  have f0: "heap ?ew 0 = indicator_update ?b example_indicator" "heap ?ew 1 = example_indicator"
    using fedw by (simp_all add: e 6 hw)
  have f: "inputs (heap ?ew 0) = [?b]" "inputs (heap ?ew 1) = []"
    using f0 by (simp_all add: indicator_update_def example_indicator_def)
  let ?sw = "write_log INFO (MsgUser ''on_bar: the bar is the last bar'') ?ew"
  have d: "handle_bar LoggingStrategy_hooks ?bt ?b ?w = Inr ?sw"
    using L [THEN conjunct2, THEN conjunct2, THEN conjunct1] 3 bw(2)
    by (simp add: LoggingStrategy_hooks_def)
  have dw: "bars ?bt ?sw = Inr [?b]" "inputs (heap ?sw 0) = [?b]" "inputs (heap ?sw 1) = []"
    "trace ?sw = trace ?w @ [Log INFO (MsgUser ''on_bar: the bar is the last bar'')]"
    using bw f by (simp_all add: write_log_def bars_def)
  have g: "handle_bar LoggingStrategy_hooks ?bt ?b ?f = Inr ?ef"
    using F [THEN conjunct2, THEN conjunct2, THEN conjunct1] 5(2) by simp
  have w: "\<exists>s'. handle_bar LoggingStrategy_hooks ?bt ?b ?w = Inr s' \<and>
         bars ?bt s' = Inr [?b] \<and> inputs (heap s' 0) = [?b] \<and> inputs (heap s' 1) = [] \<and>
         trace s' = trace ?w @ [Log INFO (MsgUser ''on_bar: the bar is the last bar'')]"
    using d dw by blast
  have n: "\<exists>s'. handle_bar LoggingStrategy_hooks ?bt ?b ?f = Inr s' \<and>
         bars ?bt s' = Inr [?b] \<and> trace s' = trace ?f"
    using g bf by blast
  show ?thesis
    using 1 3 5(2) a b c w n by simp
qed

text \<open>
  C10. \<^verbatim>\<open>indicators_initialized_all()\<close> is true exactly when every indicator of every
  list of the registry reports initialized; so it is true when nothing is registered,
  as on a strategy the constructor has just made. \<^verbatim>\<open>indicators_initialized(bar_type)\<close>
  for a bar type with a list in the registry returns whether every indicator of the
  list is initialized. For a bar type that has no list its precondition check raises
  ValueError, as its docstring says it does; but the method is declared \<^verbatim>\<open>cpdef bint\<close>
  with no except clause, so the exception does not reach the caller: the call returns,
  and the value it returns is False.
\<close>

theorem indicators_initialized_all_iff:
  "indicators_initialized_all s =
     (\<forall>bt l. (bt, l) \<in> set (u_indicators s) \<longrightarrow> (\<forall>r \<in> set l. initialized (heap s r)))
   \<and> (u_indicators s = [] \<longrightarrow> indicators_initialized_all s)
   \<and> (TradeStrategy_init class_name id_tag sl_reject on_stop_flatten on_stop_cancel capacity
          clk objs = Inr s0 \<longrightarrow> indicators_initialized_all s0)
   \<and> (\<not> has_key (u_indicators s) bt \<longrightarrow> indicators_initialized bt s = False)
   \<and> (\<forall>l. map_of (u_indicators s) bt = Some l \<longrightarrow>
          indicators_initialized bt s = (\<forall>r \<in> set l. initialized (heap s r)))"
proof -
  have all: "indicators_initialized_all s =
     (\<forall>bt l. (bt, l) \<in> set (u_indicators s) \<longrightarrow> (\<forall>r \<in> set l. initialized (heap s r)))"
    by (force simp: indicators_initialized_all_def scan_indicator_lists_iff)
  have none: "u_indicators s = [] \<longrightarrow> indicators_initialized_all s"
    by (simp add: indicators_initialized_all_def)
  have new: "TradeStrategy_init class_name id_tag sl_reject on_stop_flatten on_stop_cancel capacity
          clk objs = Inr s0 \<longrightarrow> indicators_initialized_all s0"
    by (auto simp: TradeStrategy_init_def and_then_def indicators_initialized_all_def
        split: if_splits sum.splits)
  have one: "\<not> has_key (u_indicators s) bt \<longrightarrow> indicators_initialized bt s = False"
    by (simp add: has_key_def indicators_initialized_def bint_result_def)
  have some: "\<forall>l. map_of (u_indicators s) bt = Some l \<longrightarrow>
          indicators_initialized bt s = (\<forall>r \<in> set l. initialized (heap s r))"
    by (simp add: indicators_initialized_def scan_indicators_iff bint_result_def)
  from all none new one some show ?thesis by blast
qed

theorem indicators_initialized_all_iff_witness:
  "indicators_initialized_all fresh_strategy \<and>
   \<not> has_key (u_indicators fresh_strategy) example_bar_type \<and>
   indicators_initialized example_bar_type fresh_strategy = False \<and>
   \<not> indicators_initialized_all watching_strategy \<and>
   indicators_initialized example_bar_type watching_strategy = False \<and>
   has_key (u_indicators watching_strategy) example_bar_type"
proof -
  have 1: "u_indicators fresh_strategy = []" "\<not> has_key (u_indicators fresh_strategy) example_bar_type"
    by (simp_all add: fresh_strategy_eq)
  have 2: "map_of (u_indicators watching_strategy) example_bar_type = Some [0]"
    "(example_bar_type, [0]) \<in> set (u_indicators watching_strategy)"
    "\<not> initialized (heap watching_strategy 0)"
    "has_key (u_indicators watching_strategy) example_bar_type"
    by (simp_all add: watching_strategy_eq fresh_strategy_eq initialized_def example_indicator_def
        has_key_def)
  note F = indicators_initialized_all_iff [where s = fresh_strategy and bt = example_bar_type]
  have a: "indicators_initialized_all fresh_strategy"
    "indicators_initialized example_bar_type fresh_strategy = False"
    using F [THEN conjunct2, THEN conjunct1] 1(1)
      F [THEN conjunct2, THEN conjunct2, THEN conjunct2, THEN conjunct1] 1(2) by blast+
  note W = indicators_initialized_all_iff [where s = watching_strategy and bt = example_bar_type]
  have m: "(0::nat) \<in> set [0]" by simp
  have b: "\<not> indicators_initialized_all watching_strategy"
    using W [THEN conjunct1] 2 m by blast
  have "indicators_initialized example_bar_type watching_strategy =
          (\<forall>r \<in> set [0]. initialized (heap watching_strategy r))"
    using W [THEN conjunct2, THEN conjunct2, THEN conjunct2, THEN conjunct2] 2(1) by blast
  then have c: "indicators_initialized example_bar_type watching_strategy = False"
    using 2(3) by simp
  from a b c 1(2) 2(4) show ?thesis by simp
qed

lemma reset_eq:
  "reset h s =
     (if is_running s then s\<lparr>trace := trace s @ [Log ERROR MsgCannotReset]\<rparr>
      else write_log INFO MsgReset
             (call_hook (on_reset h)
                (s\<lparr>trace := trace s @ [Log INFO MsgResetting],
                   order_factory := order_factory_reset (order_factory s),
                   position_id_generator := IdentifierGenerator_reset (position_id_generator s),
                   u_ticks := [],
                   u_bars := [],
                   heap := (\<lambda>r. if r \<in> set (registered_indicators s)
                                 then indicator_reset (heap s r) else heap s r)\<rparr>)))"
proof -
  have heap: "fold (\<lambda>indicator_list objs. fold reset_indicator indicator_list objs)
                (map snd (u_indicators s)) (heap s) =
              (\<lambda>r. if r \<in> set (registered_indicators s)
                    then indicator_reset (heap s r) else heap s r)"
    by (rule ext) (simp add: fold_reset_lists registered_indicators_def)
  show ?thesis
    by (simp add: reset_def Let_def heap write_log_def)
qed

text \<open>
  C7. When \<^verbatim>\<open>is_running\<close> is true, \<^verbatim>\<open>reset()\<close> logs an error and returns the
  strategy as it was (the log entry apart); \<^verbatim>\<open>on_reset\<close> is not applied, whatever the
  hooks are. When it is false, \<^verbatim>\<open>reset()\<close> resets the order factory and the position
  identifier generator (their counters go to zero), empties the tick cache and the bar
  cache, resets every indicator of the registry (its inputs are gone), and then applies
  the user's \<^verbatim>\<open>on_reset\<close> to the strategy so changed: what \<^verbatim>\<open>on_reset\<close> returns, with
  the exception logged when it raises and the closing log entry, is the result.
\<close>

theorem reset_refused_while_running:
  "reset h s =
     (if is_running s then s\<lparr>trace := trace s @ [Log ERROR MsgCannotReset]\<rparr>
      else (case on_reset h
                   (s\<lparr>trace := trace s @ [Log INFO MsgResetting],
                      order_factory := order_factory_reset (order_factory s),
                      position_id_generator :=
                        IdentifierGenerator_reset (position_id_generator s),
                      u_ticks := [],
                      u_bars := [],
                      heap := (\<lambda>r. if r \<in> set (registered_indicators s)
                                    then indicator_reset (heap s r) else heap s r)\<rparr>) of
              (None, s') \<Rightarrow> s'\<lparr>trace := trace s' @ [Log INFO MsgReset]\<rparr>
            | (Some ex, s') \<Rightarrow>
                s'\<lparr>trace := trace s' @ [Log EXCEPTION (MsgRaised ex), Log INFO MsgReset]\<rparr>))
   \<and> counter (id_generator (order_factory_reset f)) = 0
   \<and> counter (IdentifierGenerator_reset g) = 0
   \<and> inputs (indicator_reset i) = []"
  using reset_eq [of h s]
  by (simp add: order_factory_reset_def IdentifierGenerator_reset_def indicator_reset_def
      call_hook_eq write_log_def split: prod.splits option.splits)

theorem reset_refused_while_running_witness:
  "is_running watching_strategy \<and>
   reset LoggingStrategy_hooks watching_strategy =
     watching_strategy\<lparr>trace := trace watching_strategy @ [Log ERROR MsgCannotReset]\<rparr> \<and>
   \<not> is_running primed_strategy \<and>
   u_ticks primed_strategy = [(Symbol ''AUDUSD'' ''FXCM'', example_tick)] \<and>
   cached_bars primed_strategy example_bar_type = [example_bar 1] \<and>
   inputs (heap primed_strategy 0) = [example_bar 1] \<and>
   trace (reset LoggingStrategy_hooks primed_strategy) =
     trace primed_strategy @
       [Log INFO MsgResetting,
        Log INFO (MsgUser ''on_reset: the caches are empty''),
        Log INFO MsgReset] \<and>
   trace (reset TradeStrategy_hooks primed_strategy) =
     trace primed_strategy @
       [Log INFO MsgResetting,
        Log EXCEPTION (MsgRaised NotImplementedError),
        Log INFO MsgReset] \<and>
   u_ticks (reset LoggingStrategy_hooks primed_strategy) = [] \<and>
   u_bars (reset LoggingStrategy_hooks primed_strategy) = [] \<and>
   inputs (heap (reset LoggingStrategy_hooks primed_strategy) 0) = []"
proof -
  let ?w = watching_strategy
  let ?p = primed_strategy
  have w: "is_running ?w" by (simp add: watching_strategy_eq)
  have p: "\<not> is_running ?p" "u_ticks ?p = [(Symbol ''AUDUSD'' ''FXCM'', example_tick)]"
    "cached_bars ?p example_bar_type = [example_bar 1]"
    "inputs (heap ?p 0) = [example_bar 1]"
    "registered_indicators ?p = [0]"
    by (simp_all add: primed_strategy_eq fresh_strategy_eq cached_bars_def indicator_update_def
        example_indicator_def registered_indicators_def)
  note W = reset_refused_while_running [of LoggingStrategy_hooks ?w, THEN conjunct1]
  note L = reset_refused_while_running [of LoggingStrategy_hooks ?p, THEN conjunct1]
  note R = reset_refused_while_running [of TradeStrategy_hooks ?p, THEN conjunct1]
  have a: "reset LoggingStrategy_hooks ?w = ?w\<lparr>trace := trace ?w @ [Log ERROR MsgCannotReset]\<rparr>"
    using W w by simp
  have b: "trace (reset LoggingStrategy_hooks ?p) =
     trace ?p @ [Log INFO MsgResetting, Log INFO (MsgUser ''on_reset: the caches are empty''),
        Log INFO MsgReset]"
    "u_ticks (reset LoggingStrategy_hooks ?p) = []"
    "u_bars (reset LoggingStrategy_hooks ?p) = []"
    "inputs (heap (reset LoggingStrategy_hooks ?p) 0) = []"
    using L p(1)
    by (simp_all add: LoggingStrategy_hooks_def write_log_def p(5) indicator_reset_def)
  have c: "trace (reset TradeStrategy_hooks ?p) =
     trace ?p @ [Log INFO MsgResetting, Log EXCEPTION (MsgRaised NotImplementedError),
        Log INFO MsgReset]"
    using R p(1) by (simp add: TradeStrategy_hooks_def)
  from w a p(1-4) b c show ?thesis by simp
qed

lemma call_hook_ledger: "ledger (call_hook f s) = ledger (snd (f s))"
  by (auto simp: call_hook_def write_log_def ledger_def split: prod.splits option.splits)

lemma write_log_ledger [simp]: "ledger (write_log l m s) = ledger s"
  by (simp add: write_log_def ledger_def)

text \<open>
  C9. \<^verbatim>\<open>reset()\<close> does not touch the ledger: the strategy it hands to \<^verbatim>\<open>on_reset\<close>
  (or returns, when it refuses) has the registers of entry, stop-loss and take-profit
  orders, the map of atomic orders and the buffer of modify commands of the strategy it
  was called on. It differs from that strategy in the tick cache, the bar cache, the
  indicator objects of the registry, the order factory, the position identifier
  generator and the log only. With an \<^verbatim>\<open>on_reset\<close> that leaves the ledger alone, the
  ledger after \<^verbatim>\<open>reset()\<close> is the ledger before.
\<close>

theorem reset_keeps_ledger:
  "(\<exists>e. ledger e = ledger s \<and>
        e\<lparr>order_factory := order_factory s,
          position_id_generator := position_id_generator s,
          u_ticks := u_ticks s, u_bars := u_bars s, heap := heap s, trace := trace s\<rparr> = s \<and>
        (\<forall>r. r \<notin> set (registered_indicators s) \<longrightarrow> heap e r = heap s r) \<and>
        (\<forall>h. reset h s =
               (if is_running s then e
                else write_log INFO MsgReset (call_hook (on_reset h) e))))
   \<and> (keeps_ledger (on_reset h) \<longrightarrow> ledger (reset h s) = ledger s)"
proof -
  let ?e = "if is_running s then write_log ERROR MsgCannotReset s
      else s\<lparr>trace := trace s @ [Log INFO MsgResetting],
                   order_factory := order_factory_reset (order_factory s),
                   position_id_generator := IdentifierGenerator_reset (position_id_generator s),
                   u_ticks := [],
                   u_bars := [],
                   heap := (\<lambda>r. if r \<in> set (registered_indicators s)
                                 then indicator_reset (heap s r) else heap s r)\<rparr>"
  have 1: "ledger ?e = ledger s"
    by (cases "is_running s") (simp_all add: ledger_def write_log_def)
  have 2: "?e\<lparr>order_factory := order_factory s,
          position_id_generator := position_id_generator s,
          u_ticks := u_ticks s, u_bars := u_bars s, heap := heap s, trace := trace s\<rparr> = s"
    by (cases "is_running s") (simp_all add: write_log_def)
  have 3: "\<forall>r. r \<notin> set (registered_indicators s) \<longrightarrow> heap ?e r = heap s r"
    by (cases "is_running s") (simp_all add: write_log_def)
  have 4: "reset h s =
               (if is_running s then ?e
                else write_log INFO MsgReset (call_hook (on_reset h) ?e))" for h
    using reset_eq [of h s]
    by (cases "is_running s") (simp_all add: write_log_def)
  have 5: "keeps_ledger (on_reset h) \<longrightarrow> ledger (reset h s) = ledger s"
  proof
    assume k: "keeps_ledger (on_reset h)"
    show "ledger (reset h s) = ledger s"
    proof (cases "is_running s")
      case True
      then show ?thesis using 1 4 [of h] by simp
    next
      case False
      then have "ledger (reset h s) = ledger (snd (on_reset h ?e))"
        using 4 [of h] by (simp add: call_hook_ledger)
      also have "\<dots> = ledger ?e" using k by (simp add: keeps_ledger_def)
      finally show ?thesis using 1 by simp
    qed
  qed
  from 1 2 3 4 5 show ?thesis by blast
qed

theorem reset_keeps_ledger_witness:
  "keeps_ledger (on_reset EmptyStrategy_hooks) \<and>
   ledger (reset EmptyStrategy_hooks fresh_strategy) = ledger fresh_strategy \<and>
   ledger (reset EmptyStrategy_hooks watching_strategy) = ledger watching_strategy"
proof -
  have k: "keeps_ledger (on_reset EmptyStrategy_hooks)"
    by (simp add: keeps_ledger_def EmptyStrategy_hooks_def)
  from reset_keeps_ledger [of fresh_strategy EmptyStrategy_hooks]
    reset_keeps_ledger [of watching_strategy EmptyStrategy_hooks] k
  show ?thesis by blast
qed

section \<open>Commands sent to the execution client\<close>

lemma after_calls_fields [simp]:
  "u_entry_orders (after_calls k g es s) = u_entry_orders s"
  "u_stop_loss_orders (after_calls k g es s) = u_stop_loss_orders s"
  "u_take_profit_orders (after_calls k g es s) = u_take_profit_orders s"
  "u_atomic_order_ids (after_calls k g es s) = u_atomic_order_ids s"
  "u_modify_order_buffer (after_calls k g es s) = u_modify_order_buffer s"
  "u_exec_client (after_calls k g es s) = u_exec_client s"
  "u_portfolio (after_calls k g es s) = u_portfolio s"
  "is_exec_client_registered (after_calls k g es s) = is_exec_client_registered s"
  "is_running (after_calls k g es s) = is_running s"
  "trader_id (after_calls k g es s) = trader_id s"
  "strategy_id (after_calls k g es s) = strategy_id s"
  "clock (after_calls k g es s) = clock s"
  "flatten_on_sl_reject (after_calls k g es s) = flatten_on_sl_reject s"
  "flatten_on_stop (after_calls k g es s) = flatten_on_stop s"
  "cancel_all_orders_on_stop (after_calls k g es s) = cancel_all_orders_on_stop s"
  "trace (after_calls k g es s) = trace s @ es"
  "u_guid_factory (after_calls k g es s) = u_guid_factory s + g"
  "counter (id_generator (order_factory (after_calls k g es s))) =
     counter (id_generator (order_factory s)) + k"
  by (simp_all add: after_calls_def)

lemma after_calls_after_calls [simp]:
  "after_calls k g es (after_calls k' g' es' s) = after_calls (k' + k) (g' + g) (es' @ es) s"
  by (simp add: after_calls_def add.assoc)

lemma after_calls_0 [simp]: "after_calls 0 0 [] s = s"
  by (simp add: after_calls_def)

lemma write_log_after_calls: "write_log lvl m s = after_calls 0 0 [Log lvl m] s"
  by (simp add: after_calls_def write_log_def)

lemma exit_order_after_calls [simp]:
  "exit_order (after_calls k g es s) n p = exit_order s n p"
  by (simp add: exit_order_def after_calls_def identifier_text_def)

lemma submit_order_eq:
  assumes "is_exec_client_registered s" "u_exec_client s = Some c"
  shows "submit_order ord i s =
     Inr (after_calls 0 1
           [Log INFO (MsgSubmitting ord i),
            ExecuteCommand (SubmitOrder (trader_id s) (strategy_id s) i ord
              (Guid (u_guid_factory s)) (time_now (clock s)))] s)"
  using assms
  by (simp add: submit_order_def Let_def guid_generate_def write_log_def execute_command_def
      after_calls_def)

lemma get_flatten_side_open:
  "\<not> position_is_flat p \<Longrightarrow>
   get_flatten_side (market_position p) = Inr (if market_position p = LONG then SELL else BUY)"
  by (cases "market_position p") (simp_all add: get_flatten_side_def position_is_flat_def)

lemma order_factory_market_eq:
  "order_factory_market (position_symbol p) (if market_position p = LONG then SELL else BUY)
      (position_quantity p) (Label ''EXIT'') s =
   (exit_order s (Suc (counter (id_generator (order_factory s)))) p, after_calls 1 0 [] s)"
  by (simp add: order_factory_market_def OrderIdGenerator_generate_def generate_eq exit_order_def
      after_calls_def)

lemma resume_Inr [simp]: "resume (Inr s) = s"
  by (simp add: resume_def)

lemma resume_Inl [simp]: "resume (Inl (e, s)) = s"
  by (simp add: resume_def)

lemma flatten_open_position:
  assumes "is_exec_client_registered s" "u_exec_client s = Some c" "\<not> position_is_flat p"
  shows "(case get_flatten_side (market_position p) of
            Inl e \<Rightarrow> Inl (e, s)
          | Inr sd \<Rightarrow>
              (case order_factory_market (position_symbol p) sd (position_quantity p)
                      (Label ''EXIT'') s of
                 (ord, s1) \<Rightarrow>
                   Inr (resume (submit_order ord i (write_log INFO (MsgFlattening p) s1))))) =
     Inr (after_calls 1 1
           [Log INFO (MsgFlattening p),
            Log INFO (MsgSubmitting (exit_order s (Suc (counter (id_generator (order_factory s)))) p) i),
            ExecuteCommand (SubmitOrder (trader_id s) (strategy_id s) i
              (exit_order s (Suc (counter (id_generator (order_factory s)))) p)
              (Guid (u_guid_factory s)) (time_now (clock s)))] s)"
proof -
  let ?s1 = "after_calls 1 0 [Log INFO (MsgFlattening p)] s"
  have r: "is_exec_client_registered ?s1" "u_exec_client ?s1 = Some c"
    using assms by simp_all
  show ?thesis
    using submit_order_eq [OF r]
    by (simp add: get_flatten_side_open [OF assms(3)] order_factory_market_eq
        write_log_after_calls)
qed

lemma flatten_position_eq:
  assumes "is_exec_client_registered s" "u_exec_client s = Some c" "u_portfolio s = Some pf"
    "get_position pf i = Some p"
  shows "flatten_position i s =
     Inr (if position_is_flat p then after_calls 0 0 [Log WARNING (MsgAlreadyFlat i)] s
          else after_calls 1 1
           [Log INFO (MsgFlattening p),
            Log INFO (MsgSubmitting (exit_order s (Suc (counter (id_generator (order_factory s)))) p) i),
            ExecuteCommand (SubmitOrder (trader_id s) (strategy_id s) i
              (exit_order s (Suc (counter (id_generator (order_factory s)))) p)
              (Guid (u_guid_factory s)) (time_now (clock s)))] s)"
proof (cases "position_is_flat p")
  case True
  then show ?thesis using assms by (simp add: flatten_position_def write_log_after_calls)
next
  case False
  show ?thesis
    unfolding flatten_position_def
    using assms False flatten_open_position [OF assms(1,2) False, of i]
    by simp
qed

lemma connected_strategy_eq:
  "connected_strategy =
     fresh_strategy
       \<lparr>u_exec_client := Some example_client,
        u_portfolio := Some example_portfolio,
        is_exec_client_registered := True,
        is_portfolio_registered := True,
        trace := [Log DEBUG MsgRegisteredExecutionClient]\<rparr>"
  by (simp add: connected_strategy_def register_execution_client_def write_log_def
      fresh_strategy_eq example_client_def)

lemma submit_atomic_order_eq:
  assumes "is_exec_client_registered s" "u_exec_client s = Some c"
  shows "submit_atomic_order a i s =
     Inr ((after_calls 0 1
            [Log INFO (MsgSubmittingAtomic a i),
             ExecuteCommand (SubmitAtomicOrder (trader_id s) (strategy_id s) i a
               (Guid (u_guid_factory s)) (time_now (clock s)))] s)
          \<lparr>u_entry_orders := AList.update (oid (entry a)) (entry a) (u_entry_orders s),
           u_stop_loss_orders :=
             AList.update (oid (stop_loss a)) (stop_loss a) (u_stop_loss_orders s),
           u_take_profit_orders :=
             (case take_profit a of
                None \<Rightarrow> u_take_profit_orders s
              | Some tp \<Rightarrow> AList.update (oid tp) tp (u_take_profit_orders s)),
           u_atomic_order_ids :=
             AList.update (oid (entry a))
               (oid (stop_loss a) # (case take_profit a of None \<Rightarrow> [] | Some tp \<Rightarrow> [oid tp]))
               (u_atomic_order_ids s)\<rparr>)"
  using assms
  by (cases "take_profit a")
    (simp_all add: submit_atomic_order_def Let_def write_log_def register_entry_order_def
      register_stop_loss_order_def register_take_profit_order_def guid_generate_def
      execute_command_def after_calls_def)

lemma submitted_strategy_eq:
  "submitted_strategy =
     (after_calls 0 1
        [Log INFO (MsgSubmittingAtomic example_atomic_order (PositionId ''P-1'')),
         ExecuteCommand (SubmitAtomicOrder (TraderId ''Trader-000'')
           (StrategyId ''EmptyStrategy-EMA-001'') (PositionId ''P-1'') example_atomic_order
           (Guid 0) (clock_time test_clock))] connected_strategy)
     \<lparr>u_entry_orders := [(OrderId ''O-1'', entry example_atomic_order)],
      u_stop_loss_orders := [(OrderId ''O-2'', stop_loss example_atomic_order)],
      u_take_profit_orders :=
        [(OrderId ''O-3'', example_order ''O-3'' SELL LIMIT (12100 / 10000))],
      u_atomic_order_ids := [(OrderId ''O-1'', [OrderId ''O-2'', OrderId ''O-3''])]\<rparr>"
proof -
  have r: "is_exec_client_registered connected_strategy"
    "u_exec_client connected_strategy = Some example_client"
    by (simp_all add: connected_strategy_eq)
  show ?thesis
    unfolding submitted_strategy_def submit_atomic_order_eq [OF r]
    by (simp add: connected_strategy_eq fresh_strategy_eq example_atomic_order_def
        example_order_def time_now_def)
qed

lemma running_strategy_eq:
  "running_strategy =
     submitted_strategy
       \<lparr>is_running := True,
        trace := trace submitted_strategy @
          [Log INFO MsgStarting, SetIsRunning True, Log INFO MsgRunning]\<rparr>"
  by (simp add: running_strategy_def start_def Let_def write_log_def call_hook_def
      EmptyStrategy_hooks_def set_is_running_def)

section \<open>The order ledger\<close>

lemma remove_from_registered_orders_fields [simp]:
  "u_atomic_order_ids (remove_from_registered_orders x s) = u_atomic_order_ids s"
  "u_modify_order_buffer (remove_from_registered_orders x s) = u_modify_order_buffer s"
  "trace (remove_from_registered_orders x s) = trace s"
  "u_guid_factory (remove_from_registered_orders x s) = u_guid_factory s"
  "is_running (remove_from_registered_orders x s) = is_running s"
  by (simp_all add: remove_from_registered_orders_def)

lemma register_count_remove:
  "register_count (remove_from_registered_orders x s) y =
     (if y = x then register_count s x - 1 else register_count s y)"
  by (auto simp: remove_from_registered_orders_def register_count_def)

lemma register_count_remove_le:
  "register_count (remove_from_registered_orders x s) y \<le> register_count s y"
  by (simp add: register_count_remove)

lemma fold_remove_fields [simp]:
  "u_atomic_order_ids (fold remove_from_registered_orders cs s) = u_atomic_order_ids s"
  "u_modify_order_buffer (fold remove_from_registered_orders cs s) = u_modify_order_buffer s"
  "trace (fold remove_from_registered_orders cs s) = trace s"
  "u_guid_factory (fold remove_from_registered_orders cs s) = u_guid_factory s"
  "is_running (fold remove_from_registered_orders cs s) = is_running s"
  by (induction cs arbitrary: s) simp_all

lemma register_count_fold_remove_le:
  "register_count (fold remove_from_registered_orders cs s) y \<le> register_count s y"
proof (induction cs arbitrary: s)
  case Nil
  then show ?case by simp
next
  case (Cons c cs)
  have "register_count (fold remove_from_registered_orders cs (remove_from_registered_orders c s)) y
        \<le> register_count (remove_from_registered_orders c s) y"
    by (rule Cons.IH)
  also have "\<dots> \<le> register_count s y" by (rule register_count_remove_le)
  finally show ?case by simp
qed

lemma register_count_cong:
  "u_entry_orders s' = u_entry_orders s \<Longrightarrow> u_stop_loss_orders s' = u_stop_loss_orders s \<Longrightarrow>
   u_take_profit_orders s' = u_take_profit_orders s \<Longrightarrow> register_count s' y = register_count s y"
  by (simp add: register_count_def)

lemma register_count_remove_children_le:
  "register_count (remove_atomic_child_orders x s) y \<le> register_count s y"
proof (cases "map_of (u_atomic_order_ids s) x")
  case None
  then show ?thesis by (simp add: remove_atomic_child_orders_def)
next
  case (Some cs)
  have "register_count (remove_atomic_child_orders x s) y =
        register_count (fold remove_from_registered_orders cs s) y"
    using Some by (simp add: remove_atomic_child_orders_def Let_def register_count_def)
  then show ?thesis using register_count_fold_remove_le [of cs s y] by simp
qed

lemma remove_children_fields [simp]:
  "trace (remove_atomic_child_orders x s) = trace s"
  "u_modify_order_buffer (remove_atomic_child_orders x s) = u_modify_order_buffer s"
  "u_guid_factory (remove_atomic_child_orders x s) = u_guid_factory s"
  "is_running (remove_atomic_child_orders x s) = is_running s"
  by (simp_all add: remove_atomic_child_orders_def Let_def split: option.splits)

lemma absent_iff_count: "absent_from_registers s x = (register_count s x = 0)"
  by (simp add: absent_from_registers_def register_count_def)

text \<open>Removing the children and then the order itself.\<close>

lemma cleanup_count:
  "register_count (remove_from_registered_orders x (remove_atomic_child_orders x s)) y \<le>
     register_count s y"
  "register_count s x \<le> 1 \<Longrightarrow>
   register_count (remove_from_registered_orders x (remove_atomic_child_orders x s)) x = 0"
proof -
  show "register_count (remove_from_registered_orders x (remove_atomic_child_orders x s)) y \<le>
     register_count s y"
    using register_count_remove_le [of x "remove_atomic_child_orders x s" y]
      register_count_remove_children_le [of x s y] by simp
  assume "register_count s x \<le> 1"
  then have "register_count (remove_atomic_child_orders x s) x \<le> 1"
    using register_count_remove_children_le [of x s x] by simp
  then show "register_count (remove_from_registered_orders x (remove_atomic_child_orders x s)) x = 0"
    by (simp add: register_count_remove)
qed

lemma register_count_write_log [simp]: "register_count (write_log l m s) y = register_count s y"
  by (simp add: register_count_def write_log_def)

lemma register_count_after_calls [simp]:
  "register_count (after_calls k g es s) y = register_count s y"
  by (simp add: register_count_def)

text \<open>The flatten step of a rejection leaves the ledger alone, however it ends.\<close>

lemma submit_order_resume:
  "\<exists>g es. resume (submit_order ord i s) = after_calls 0 g es s"
proof (cases "is_exec_client_registered s")
  case False
  then have "resume (submit_order ord i s) = after_calls 0 0 [Log ERROR MsgCannotSubmitOrder] s"
    by (simp add: submit_order_def write_log_after_calls)
  then show ?thesis by blast
next
  case True
  show ?thesis
  proof (cases "u_exec_client s")
    case None
    then have "resume (submit_order ord i s) =
        after_calls 0 1 [Log INFO (MsgSubmitting ord i)] s"
      using True
      by (simp add: submit_order_def Let_def guid_generate_def write_log_def execute_command_def
          after_calls_def)
    then show ?thesis by blast
  next
    case (Some c)
    from submit_order_eq [OF True Some, of ord i] show ?thesis by (metis resume_Inr)
  qed
qed

lemma flatten_position_resume:
  "\<exists>k g es. resume (flatten_position i s) = after_calls k g es s"
proof -
  have none: "\<exists>k g es. s = after_calls k g es s"
    using after_calls_0 [of s] by metis
  have log: "\<exists>k g es. write_log l m s = after_calls k g es s" for l m
    using write_log_after_calls by blast
  show ?thesis
  proof (cases "is_exec_client_registered s")
    case False
    then show ?thesis using log by (simp add: flatten_position_def)
  next
    case reg: True
    show ?thesis
    proof (cases "u_portfolio s")
      case None
      then show ?thesis using reg none by (simp add: flatten_position_def)
    next
      case (Some pf)
      show ?thesis
      proof (cases "get_position pf i")
        case None
        then show ?thesis using reg Some none by (simp add: flatten_position_def)
      next
        case pos: (Some p)
        show ?thesis
        proof (cases "position_is_flat p")
          case True
          then show ?thesis using reg Some pos log by (simp add: flatten_position_def)
        next
          case False
          let ?s1 = "after_calls 1 0 [Log INFO (MsgFlattening p)] s"
          let ?o = "exit_order s (Suc (counter (id_generator (order_factory s)))) p"
          obtain g es where g: "resume (submit_order ?o i ?s1) = after_calls 0 g es ?s1"
            using submit_order_resume by blast
          have "resume (flatten_position i s) = resume (submit_order ?o i ?s1)"
            using reg Some pos False
            by (simp add: flatten_position_def get_flatten_side_open order_factory_market_eq
                write_log_after_calls)
          then show ?thesis unfolding g by (metis after_calls_after_calls)
        qed
      qed
    qed
  qed
qed

lemma apply_rejected:
  assumes "has_key (u_stop_loss_orders s) x \<and> flatten_on_sl_reject s \<longrightarrow> position_held s x"
  shows "\<exists>k g es. apply_event (OrderRejected x) s =
      Inr (remove_from_registered_orders x (remove_atomic_child_orders x
            (after_calls k g (Log WARNING (MsgEvent (OrderRejected x)) # es) s)))"
proof -
  let ?s1 = "after_calls 0 0 [Log WARNING (MsgEvent (OrderRejected x))] s"
  let ?step = "if has_key (u_stop_loss_orders ?s1) x \<and> flatten_on_sl_reject ?s1
            then (case u_portfolio ?s1 of
                    None \<Rightarrow> Inl (AttributeError, ?s1)
                  | Some pf \<Rightarrow>
                      (case get_position_for_order pf x of
                         None \<Rightarrow> Inl (AttributeError, ?s1)
                       | Some p \<Rightarrow>
                           if is_entered p then Inr (resume (flatten_position (pid p) ?s1))
                           else Inr ?s1))
            else Inr ?s1"
  have ev: "apply_event (OrderRejected x) s =
      and_then ?step (\<lambda>s2. Inr (remove_from_registered_orders x
                        (remove_atomic_child_orders x s2)))"
    by (simp add: write_log_after_calls Let_def)
  have "\<exists>k g es. ?step = Inr (after_calls k g es ?s1)"
  proof (cases "has_key (u_stop_loss_orders s) x \<and> flatten_on_sl_reject s")
    case False
    then have "?step = Inr (after_calls 0 0 [] ?s1)" by auto
    then show ?thesis by blast
  next
    case True
    with assms have "position_held s x" by simp
    then obtain pf p where pf: "u_portfolio s = Some pf" "get_position_for_order pf x = Some p"
      by (auto simp: position_held_def split: option.splits)
    show ?thesis
    proof (cases "is_entered p")
      case False
      then have "?step = Inr (after_calls 0 0 [] ?s1)" using True pf by auto
      then show ?thesis by blast
    next
      case entered: True
      obtain k g es where "resume (flatten_position (pid p) ?s1) = after_calls k g es ?s1"
        using flatten_position_resume by blast
      then have "?step = Inr (after_calls k g es ?s1)"
        using True pf entered by (simp del: after_calls_after_calls)
      then show ?thesis by blast
    qed
  qed
  then obtain k g es where "?step = Inr (after_calls k g es ?s1)" by blast
  then have "apply_event (OrderRejected x) s =
      Inr (remove_from_registered_orders x (remove_atomic_child_orders x
            (after_calls k g (Log WARNING (MsgEvent (OrderRejected x)) # es) s)))"
    unfolding ev by (simp add: and_then_def)
  then show ?thesis by blast
qed

lemma register_count_ledger:
  "ledger s' = ledger s \<Longrightarrow> register_count s' y = register_count s y"
  by (simp add: ledger_def register_count_def)

lemma deliver_event_count:
  "keeps_ledger (on_event h ev) \<Longrightarrow>
   register_count (deliver_event h ev e) y = register_count e y"
  by (rule register_count_ledger) (simp add: deliver_event_def call_hook_ledger keeps_ledger_def)

lemma deliver_event_eq:
  "deliver_event h ev e =
     (if is_running e
      then (case on_event h ev e of
              (None, s') \<Rightarrow> s'
            | (Some ex, s') \<Rightarrow> s'\<lparr>trace := trace s' @ [Log EXCEPTION (MsgRaised ex)]\<rparr>)
      else e)"
  by (simp add: deliver_event_def call_hook_eq)

lemma is_running_cleanup [simp]:
  "is_running (remove_from_registered_orders x (remove_atomic_child_orders x s)) = is_running s"
  by simp

lemma terminal_event_applied:
  assumes "ev \<in> {OrderFilled x, OrderCancelled x, OrderRejected x, OrderExpired x}"
    and "register_count s x \<le> 1"
    and "ev = OrderRejected x \<and> has_key (u_stop_loss_orders s) x \<and> flatten_on_sl_reject s \<longrightarrow>
         position_held s x"
  shows "\<exists>e. apply_event ev s = Inr e \<and> register_count e x = 0 \<and>
             (\<forall>y. register_count e y \<le> register_count s y) \<and> is_running e = is_running s"
proof -
  consider (filled) "ev = OrderFilled x" | (cancelled) "ev = OrderCancelled x"
    | (rejected) "ev = OrderRejected x" | (expired) "ev = OrderExpired x"
    using assms(1) by auto
  then show ?thesis
  proof cases
    case filled
    let ?s2 = "if has_key (u_atomic_order_ids s) x
               then (write_log INFO (MsgEvent (OrderFilled x)) s)
                      \<lparr>u_atomic_order_ids := AList.delete x (u_atomic_order_ids s)\<rparr>
               else write_log INFO (MsgEvent (OrderFilled x)) s"
    have c: "register_count ?s2 y = register_count s y" for y
      by (simp add: register_count_def write_log_def)
    have r: "is_running ?s2 = is_running s" by (simp add: write_log_def)
    have "apply_event ev s = Inr (remove_from_registered_orders x ?s2)"
      by (simp add: filled Let_def write_log_def)
    moreover have "register_count (remove_from_registered_orders x ?s2) x = 0"
      using assms(2) c [of x] by (simp add: register_count_remove)
    moreover have "\<forall>y. register_count (remove_from_registered_orders x ?s2) y \<le> register_count s y"
      using c register_count_remove_le [of x ?s2] by simp
    moreover have "is_running (remove_from_registered_orders x ?s2) = is_running s"
      using r by simp
    ultimately show ?thesis by blast
  next
    case cancelled
    let ?s1 = "write_log INFO (MsgEvent (OrderCancelled x)) s"
    have "apply_event ev s =
            Inr (remove_from_registered_orders x (remove_atomic_child_orders x ?s1))"
      by (simp add: cancelled Let_def)
    moreover have "register_count ?s1 x \<le> 1" using assms(2) by simp
    moreover have "is_running ?s1 = is_running s" by (simp add: write_log_def)
    ultimately show ?thesis
      using cleanup_count(2) [of ?s1 x] cleanup_count(1) [of x ?s1] by auto
  next
    case expired
    let ?s1 = "write_log INFO (MsgEvent (OrderExpired x)) s"
    have "apply_event ev s =
            Inr (remove_from_registered_orders x (remove_atomic_child_orders x ?s1))"
      by (simp add: expired Let_def)
    moreover have "register_count ?s1 x \<le> 1" using assms(2) by simp
    moreover have "is_running ?s1 = is_running s" by (simp add: write_log_def)
    ultimately show ?thesis
      using cleanup_count(2) [of ?s1 x] cleanup_count(1) [of x ?s1] by auto
  next
    case rejected
    from assms(3) rejected
    have "has_key (u_stop_loss_orders s) x \<and> flatten_on_sl_reject s \<longrightarrow> position_held s x"
      by simp
    from apply_rejected [OF this]
    obtain k g es where a: "apply_event (OrderRejected x) s =
      Inr (remove_from_registered_orders x (remove_atomic_child_orders x
            (after_calls k g (Log WARNING (MsgEvent (OrderRejected x)) # es) s)))"
      by blast
    let ?s1 = "after_calls k g (Log WARNING (MsgEvent (OrderRejected x)) # es) s"
    have "register_count ?s1 x \<le> 1" using assms(2) by simp
    moreover have "is_running ?s1 = is_running s" by simp
    ultimately show ?thesis
      using a rejected cleanup_count(2) [of ?s1 x] cleanup_count(1) [of x ?s1] by auto
  qed
qed

lemma twice_registered_strategy_eq:
  "twice_registered_strategy =
     fresh_strategy
       \<lparr>u_entry_orders := [(OrderId ''O-1'', entry example_atomic_order)],
        u_stop_loss_orders := [(OrderId ''O-1'', entry example_atomic_order)]\<rparr>"
  by (simp add: twice_registered_strategy_def register_entry_order_def
      register_stop_loss_order_def fresh_strategy_eq example_atomic_order_def example_order_def)

lemma unconnected_strategy_eq:
  "unconnected_strategy =
     fresh_strategy\<lparr>u_stop_loss_orders := [(OrderId ''O-2'', stop_loss example_atomic_order)]\<rparr>"
  by (simp add: unconnected_strategy_def register_stop_loss_order_def fresh_strategy_eq
      example_atomic_order_def example_order_def)

text \<open>
  C4, as amended. When a terminal event (OrderFilled, OrderCancelled, OrderRejected or
  OrderExpired) for the order identifier X reaches \<^verbatim>\<open>handle_event\<close> and X is then a key
  of at most one of the three registers, \<^verbatim>\<open>handle_event\<close> runs to its end, and the
  strategy it hands to \<^verbatim>\<open>on_event\<close> (when \<^verbatim>\<open>is_running\<close> is true; its result otherwise,
  and for any user hook that leaves the ledger alone) has X in none of the registers; no
  identifier is in more registers than before. When the event is the rejection of a
  registered stop-loss under \<^verbatim>\<open>flatten_on_sl_reject\<close>, the position of X is looked up
  first: a portfolio is registered and holds a position for X. What
  \<^verbatim>\<open>flatten_position\<close> then does, or fails to do, does not touch the cleanup. With no
  portfolio registered the lookup cuts \<^verbatim>\<open>handle_event\<close> short: it returns with the
  event logged, the registers as they were and \<^verbatim>\<open>on_event\<close> not called.
\<close>

theorem terminal_event_clears_registers:
  "(ev \<in> {OrderFilled x, OrderCancelled x, OrderRejected x, OrderExpired x} \<and>
    register_count s x \<le> 1 \<and>
    (ev = OrderRejected x \<and> has_key (u_stop_loss_orders s) x \<and> flatten_on_sl_reject s \<longrightarrow>
       position_held s x) \<longrightarrow>
      (\<exists>e. absent_from_registers e x \<and>
            (\<forall>y. register_count e y \<le> register_count s y) \<and>
            is_running e = is_running s \<and>
            (\<forall>h. handle_event h ev s =
                   Inr (if is_running e
                        then (case on_event h ev e of
                                (None, s') \<Rightarrow> s'
                              | (Some ex, s') \<Rightarrow>
                                  s'\<lparr>trace := trace s' @ [Log EXCEPTION (MsgRaised ex)]\<rparr>)
                        else e)))
      \<and> (keeps_ledger (on_event h ev) \<longrightarrow>
            (\<exists>s'. handle_event h ev s = Inr s' \<and> absent_from_registers s' x \<and>
                  (\<forall>y. register_count s' y \<le> register_count s y))))
   \<and> (has_key (u_stop_loss_orders s) x \<and> flatten_on_sl_reject s \<and> u_portfolio s = None \<longrightarrow>
        handle_event h (OrderRejected x) s =
          Inl (AttributeError, s\<lparr>trace := trace s @ [Log WARNING (MsgEvent (OrderRejected x))]\<rparr>) \<and>
        has_key (u_stop_loss_orders
                   (s\<lparr>trace := trace s @ [Log WARNING (MsgEvent (OrderRejected x))]\<rparr>)) x)"
proof -
  have main: "(\<exists>e. absent_from_registers e x \<and>
            (\<forall>y. register_count e y \<le> register_count s y) \<and>
            is_running e = is_running s \<and>
            (\<forall>h. handle_event h ev s =
                   Inr (if is_running e
                        then (case on_event h ev e of
                                (None, s') \<Rightarrow> s'
                              | (Some ex, s') \<Rightarrow>
                                  s'\<lparr>trace := trace s' @ [Log EXCEPTION (MsgRaised ex)]\<rparr>)
                        else e)))
      \<and> (keeps_ledger (on_event h ev) \<longrightarrow>
            (\<exists>s'. handle_event h ev s = Inr s' \<and> absent_from_registers s' x \<and>
                  (\<forall>y. register_count s' y \<le> register_count s y)))"
    if a: "ev \<in> {OrderFilled x, OrderCancelled x, OrderRejected x, OrderExpired x}"
      "register_count s x \<le> 1"
      "ev = OrderRejected x \<and> has_key (u_stop_loss_orders s) x \<and> flatten_on_sl_reject s \<longrightarrow>
         position_held s x"
  proof -
    from terminal_event_applied [OF a]
    obtain e where e: "apply_event ev s = Inr e" "register_count e x = 0"
      "\<forall>y. register_count e y \<le> register_count s y" "is_running e = is_running s"
      by blast
    have d: "handle_event h ev s = Inr (deliver_event h ev e)" for h
      using e(1) by (simp add: handle_event_def and_then_def)
    have 1: "\<exists>e. absent_from_registers e x \<and>
            (\<forall>y. register_count e y \<le> register_count s y) \<and>
            is_running e = is_running s \<and>
            (\<forall>h. handle_event h ev s =
                   Inr (if is_running e
                        then (case on_event h ev e of
                                (None, s') \<Rightarrow> s'
                              | (Some ex, s') \<Rightarrow>
                                  s'\<lparr>trace := trace s' @ [Log EXCEPTION (MsgRaised ex)]\<rparr>)
                        else e))"
      using e(2,3,4) d unfolding deliver_event_eq by (auto simp: absent_iff_count)
    have 2: "keeps_ledger (on_event h ev) \<longrightarrow>
            (\<exists>s'. handle_event h ev s = Inr s' \<and> absent_from_registers s' x \<and>
                  (\<forall>y. register_count s' y \<le> register_count s y))"
      using e(2,3) d [of h] by (auto simp: absent_iff_count deliver_event_count)
    from 1 2 show ?thesis by blast
  qed
  have short: "handle_event h (OrderRejected x) s =
          Inl (AttributeError, s\<lparr>trace := trace s @ [Log WARNING (MsgEvent (OrderRejected x))]\<rparr>) \<and>
        has_key (u_stop_loss_orders
                   (s\<lparr>trace := trace s @ [Log WARNING (MsgEvent (OrderRejected x))]\<rparr>)) x"
    if "has_key (u_stop_loss_orders s) x" "flatten_on_sl_reject s" "u_portfolio s = None"
    using that by (simp add: handle_event_def and_then_def Let_def write_log_def)
  from main short show ?thesis by blast
qed

theorem terminal_event_clears_registers_witness:
  "register_count submitted_strategy (OrderId ''O-1'') \<le> 1 \<and>
   keeps_ledger (on_event EmptyStrategy_hooks (OrderCancelled (OrderId ''O-1''))) \<and>
   (\<exists>s'. handle_event EmptyStrategy_hooks (OrderCancelled (OrderId ''O-1'')) submitted_strategy =
           Inr s' \<and>
         absent_from_registers s' (OrderId ''O-1'')) \<and>
   is_running running_strategy \<and>
   has_key (u_stop_loss_orders running_strategy) (OrderId ''O-2'') \<and>
   flatten_on_sl_reject running_strategy \<and>
   position_held running_strategy (OrderId ''O-2'') \<and>
   (\<exists>s'. handle_event LoggingStrategy_hooks (OrderRejected (OrderId ''O-2'')) running_strategy =
           Inr s' \<and>
         absent_from_registers s' (OrderId ''O-2'') \<and>
         last (trace s') = Log INFO (MsgUser ''on_event'')) \<and>
   has_key (u_stop_loss_orders unconnected_strategy) (OrderId ''O-2'') \<and>
   flatten_on_sl_reject unconnected_strategy \<and>
   u_portfolio unconnected_strategy = None \<and>
   handle_event LoggingStrategy_hooks (OrderRejected (OrderId ''O-2'')) unconnected_strategy =
     Inl (AttributeError,
          unconnected_strategy
            \<lparr>trace := trace unconnected_strategy @
               [Log WARNING (MsgEvent (OrderRejected (OrderId ''O-2'')))]\<rparr>)"
proof -
  let ?o1 = "OrderId ''O-1''"
  let ?o2 = "OrderId ''O-2''"
  have 1: "OrderCancelled ?o1 \<in>
      {OrderFilled ?o1, OrderCancelled ?o1, OrderRejected ?o1, OrderExpired ?o1}"
    by simp
  have 2: "register_count submitted_strategy ?o1 \<le> 1"
    by (simp add: register_count_def submitted_strategy_eq has_key_def)
  have 3: "OrderCancelled ?o1 = OrderRejected ?o1 \<and>
      has_key (u_stop_loss_orders submitted_strategy) ?o1 \<and>
      flatten_on_sl_reject submitted_strategy \<longrightarrow>
      position_held submitted_strategy ?o1"
    by simp
  have 4: "keeps_ledger (on_event EmptyStrategy_hooks (OrderCancelled ?o1))"
    by (simp add: keeps_ledger_def EmptyStrategy_hooks_def)
  have a: "\<exists>s'. handle_event EmptyStrategy_hooks (OrderCancelled ?o1) submitted_strategy = Inr s' \<and>
         absent_from_registers s' ?o1"
    using terminal_event_clears_registers [where ev = "OrderCancelled ?o1" and x = ?o1
        and s = submitted_strategy and h = EmptyStrategy_hooks, THEN conjunct1] 1 2 3 4
    by blast
  have r: "is_running running_strategy"
    "has_key (u_stop_loss_orders running_strategy) ?o2"
    "flatten_on_sl_reject running_strategy"
    "position_held running_strategy ?o2"
    "register_count running_strategy ?o2 \<le> 1"
    by (simp_all add: running_strategy_eq submitted_strategy_eq connected_strategy_eq
        fresh_strategy_eq position_held_def example_portfolio_def register_count_def has_key_def)
  have 5: "OrderRejected ?o2 \<in>
      {OrderFilled ?o2, OrderCancelled ?o2, OrderRejected ?o2, OrderExpired ?o2}"
    by simp
  from terminal_event_clears_registers [where ev = "OrderRejected ?o2" and x = ?o2
        and s = running_strategy and h = LoggingStrategy_hooks, THEN conjunct1] 5 r(4,5)
  obtain e where e: "absent_from_registers e ?o2" "is_running e = is_running running_strategy"
    "\<forall>h. handle_event h (OrderRejected ?o2) running_strategy =
           Inr (if is_running e
                then (case on_event h (OrderRejected ?o2) e of
                        (None, s') \<Rightarrow> s'
                      | (Some ex, s') \<Rightarrow>
                          s'\<lparr>trace := trace s' @ [Log EXCEPTION (MsgRaised ex)]\<rparr>)
                else e)"
    by blast
  let ?s' = "write_log INFO (MsgUser ''on_event'') e"
  have "handle_event LoggingStrategy_hooks (OrderRejected ?o2) running_strategy = Inr ?s'"
    using e(2,3) r(1) by (simp add: LoggingStrategy_hooks_def)
  moreover have "absent_from_registers ?s' ?o2"
    using e(1) by (simp add: absent_from_registers_def write_log_def)
  moreover have "last (trace ?s') = Log INFO (MsgUser ''on_event'')"
    by (simp add: write_log_def)
  ultimately have b: "\<exists>s'. handle_event LoggingStrategy_hooks (OrderRejected ?o2) running_strategy =
           Inr s' \<and> absent_from_registers s' ?o2 \<and>
         last (trace s') = Log INFO (MsgUser ''on_event'')"
    by blast
  have u: "has_key (u_stop_loss_orders unconnected_strategy) ?o2"
    "flatten_on_sl_reject unconnected_strategy"
    "u_portfolio unconnected_strategy = None"
    by (simp_all add: unconnected_strategy_eq fresh_strategy_eq has_key_def)
  have c: "handle_event LoggingStrategy_hooks (OrderRejected ?o2) unconnected_strategy =
     Inl (AttributeError,
          unconnected_strategy
            \<lparr>trace := trace unconnected_strategy @ [Log WARNING (MsgEvent (OrderRejected ?o2))]\<rparr>)"
    using terminal_event_clears_registers [where x = ?o2 and s = unconnected_strategy
        and h = LoggingStrategy_hooks, THEN conjunct2] u
    by blast
  from 2 4 a r(1-4) b u c show ?thesis by blast
qed

text \<open>
  C4 as stated fails. \<^verbatim>\<open>_remove_from_registered_orders\<close> is an if/elif chain and
  deletes from the first register that has the identifier only: after
  \<^verbatim>\<open>register_entry_order\<close> and \<^verbatim>\<open>register_stop_loss_order\<close> of one order, OrderFilled
  for it leaves it in the stop-loss register. And on a strategy with no portfolio, the
  rejection of a registered stop-loss under \<^verbatim>\<open>flatten_on_sl_reject\<close> ends at the lookup
  of the position: \<^verbatim>\<open>handle_event\<close> returns with the order still registered.
\<close>

theorem terminal_event_counterexample:
  "handle_event EmptyStrategy_hooks (OrderFilled (OrderId ''O-1'')) twice_registered_strategy =
     Inr (fresh_strategy
            \<lparr>u_stop_loss_orders := [(OrderId ''O-1'', entry example_atomic_order)],
             trace := [Log INFO (MsgEvent (OrderFilled (OrderId ''O-1'')))]\<rparr>) \<and>
   has_key
     (u_stop_loss_orders
        (fresh_strategy
           \<lparr>u_stop_loss_orders := [(OrderId ''O-1'', entry example_atomic_order)],
            trace := [Log INFO (MsgEvent (OrderFilled (OrderId ''O-1'')))]\<rparr>))
     (OrderId ''O-1'') \<and>
   \<not> absent_from_registers
       (fresh_strategy
          \<lparr>u_stop_loss_orders := [(OrderId ''O-1'', entry example_atomic_order)],
           trace := [Log INFO (MsgEvent (OrderFilled (OrderId ''O-1'')))]\<rparr>)
       (OrderId ''O-1'') \<and>
   flatten_on_sl_reject unconnected_strategy \<and>
   handle_event EmptyStrategy_hooks (OrderRejected (OrderId ''O-2'')) unconnected_strategy =
     Inl (AttributeError,
          fresh_strategy
            \<lparr>u_stop_loss_orders := [(OrderId ''O-2'', stop_loss example_atomic_order)],
             trace := [Log WARNING (MsgEvent (OrderRejected (OrderId ''O-2'')))]\<rparr>) \<and>
   \<not> absent_from_registers
       (fresh_strategy
          \<lparr>u_stop_loss_orders := [(OrderId ''O-2'', stop_loss example_atomic_order)],
           trace := [Log WARNING (MsgEvent (OrderRejected (OrderId ''O-2'')))]\<rparr>)
       (OrderId ''O-2'')"
  by (simp add: handle_event_def and_then_def deliver_event_def Let_def write_log_def
      remove_from_registered_orders_def twice_registered_strategy_eq fresh_strategy_eq
      has_key_def absent_from_registers_def unconnected_strategy_eq)

section \<open>Rejection of atomic orders\<close>

lemma has_key_single [simp]: "has_key [(k, v)] k' = (k' = k)"
  by (auto simp: has_key_def)

lemma handle_event_Inr:
  "apply_event ev s = Inr e \<Longrightarrow> handle_event h ev s = Inr (deliver_event h ev e)"
  by (simp add: handle_event_def and_then_def)

lemma entry_rejected:
  assumes "u_entry_orders s1 = [(o1, e1)]" "u_stop_loss_orders s1 = [(o2, e2)]"
    "u_take_profit_orders s1 = [(o3, e3)]" "u_atomic_order_ids s1 = [(o1, [o2, o3])]"
    "o1 \<noteq> o2"
  shows "apply_event (OrderRejected o1) s1 =
     Inr (s1\<lparr>u_entry_orders := [], u_stop_loss_orders := [], u_take_profit_orders := [],
            u_atomic_order_ids := [],
            trace := trace s1 @ [Log WARNING (MsgEvent (OrderRejected o1))]\<rparr>)"
  using assms
  by (simp add: Let_def write_log_def and_then_def remove_atomic_child_orders_def
      remove_from_registered_orders_def)


lemma stop_loss_rejected:
  assumes "is_exec_client_registered t" "u_exec_client t = Some c" "u_portfolio t = Some pf"
    and "has_key (u_stop_loss_orders t) x" "flatten_on_sl_reject t"
    and "get_position_for_order pf x = Some p" "is_entered p"
    and "get_position pf (pid p) = Some p'" "\<not> position_is_flat p'"
  shows "apply_event (OrderRejected x) t =
     Inr (remove_from_registered_orders x (remove_atomic_child_orders x
           (after_calls 1 1
              [Log WARNING (MsgEvent (OrderRejected x)),
               Log INFO (MsgFlattening p'),
               Log INFO (MsgSubmitting
                  (exit_order t (Suc (counter (id_generator (order_factory t)))) p') (pid p)),
               ExecuteCommand (SubmitOrder (trader_id t) (strategy_id t) (pid p)
                  (exit_order t (Suc (counter (id_generator (order_factory t)))) p')
                  (Guid (u_guid_factory t)) (time_now (clock t)))] t)))"
proof -
  let ?s1 = "after_calls 0 0 [Log WARNING (MsgEvent (OrderRejected x))] t"
  have r: "is_exec_client_registered ?s1" "u_exec_client ?s1 = Some c"
    "u_portfolio ?s1 = Some pf"
    using assms(1-3) by simp_all
  show ?thesis
    using assms(3-7,9) flatten_position_eq [OF r assms(8)]
    by (simp add: Let_def write_log_after_calls and_then_def)
qed




section \<open>The buffer of modify commands\<close>

lemma modify_order_eq:
  assumes "is_exec_client_registered s" "u_exec_client s = Some c"
  shows "modify_order ord p s =
     Inr ((after_calls 0 1
            (if has_key (u_modify_order_buffer s) (oid ord)
             then [Log WARNING (MsgBufferingModifyOrder ord p)]
             else [Log INFO (MsgModifyingOrder ord p),
                   ExecuteCommand (ModifyOrder
                     (built_modify_order s ord p))]) s)
          \<lparr>u_modify_order_buffer :=
             AList.update (oid ord)
               (built_modify_order s ord p)
               (u_modify_order_buffer s)\<rparr>)"
  using assms
  by (simp add: modify_order_def guid_generate_def Let_def write_log_def execute_command_def
      after_calls_def built_modify_order_def)

lemma process_modify_order_buffer_eq:
  assumes "u_exec_client s = Some c" "map_of (u_modify_order_buffer s) x = Some b"
    "get_order c x = Some ord"
  shows "process_modify_order_buffer x s =
     Inr ((after_calls 0 0
            (if Some (modified_price b) \<noteq> price ord
             then [Log INFO (MsgModifyingBuffered (mo_order_id b) (modified_price b)),
                   ExecuteCommand (ModifyOrder b)]
             else []) s)
          \<lparr>u_modify_order_buffer := AList.delete x (u_modify_order_buffer s)\<rparr>)"
  using assms
  by (simp add: process_modify_order_buffer_def order_def and_then_def execute_command_def
      write_log_def after_calls_def)

lemma modify_ack_applied:
  assumes "ev = OrderModified x \<or> ev = OrderCancelReject x"
    and "u_exec_client s = Some c" "map_of (u_modify_order_buffer s) x = Some b"
    "get_order c x = Some ord"
  shows "apply_event ev s =
     Inr ((after_calls 0 0
            (Log (if ev = OrderModified x then INFO else WARNING) (MsgEvent ev) #
             (if Some (modified_price b) \<noteq> price ord
              then [Log INFO (MsgModifyingBuffered (mo_order_id b) (modified_price b)),
                    ExecuteCommand (ModifyOrder b)]
              else [])) s)
          \<lparr>u_modify_order_buffer := AList.delete x (u_modify_order_buffer s)\<rparr>)"
proof -
  let ?lvl = "if ev = OrderModified x then INFO else WARNING"
  let ?s1 = "after_calls 0 0 [Log ?lvl (MsgEvent ev)] s"
  have k: "has_key (u_modify_order_buffer ?s1) x" using assms(3) by (simp add: has_key_def)
  have p: "process_modify_order_buffer x ?s1 =
     Inr ((after_calls 0 0
            (if Some (modified_price b) \<noteq> price ord
             then [Log INFO (MsgModifyingBuffered (mo_order_id b) (modified_price b)),
                   ExecuteCommand (ModifyOrder b)]
             else []) ?s1)
          \<lparr>u_modify_order_buffer := AList.delete x (u_modify_order_buffer ?s1)\<rparr>)"
    by (rule process_modify_order_buffer_eq [where c = c]) (simp_all add: assms)
  have "apply_event ev s = Inr (resume (process_modify_order_buffer x ?s1))"
    using assms(1) k by (auto simp: Let_def write_log_after_calls)
  then show ?thesis unfolding p by simp
qed

text \<open>
  C2. With the execution client registered, \<^verbatim>\<open>modify_order(order, new_price)\<close> builds
  the ModifyOrder command and looks \<^verbatim>\<open>order.id\<close> up in the buffer: when a command is
  buffered for it, the new command takes its place, a warning is logged and nothing
  goes to the execution client; otherwise the command is put into the buffer and sent.
  When OrderModified or OrderCancelReject arrives for an identifier with a buffered
  command, and the execution client knows the order, the buffered command is sent
  exactly when its price differs from the price of the order as the execution client
  reports it, and the buffer entry is removed either way; then \<^verbatim>\<open>on_event\<close> takes its
  turn.
\<close>

theorem modify_order_coalescing:
  assumes "is_exec_client_registered s" and "u_exec_client s = Some c"
  shows "modify_order ord p s =
      Inr ((after_calls 0 1
             (if has_key (u_modify_order_buffer s) (oid ord)
              then [Log WARNING (MsgBufferingModifyOrder ord p)]
              else [Log INFO (MsgModifyingOrder ord p),
                    ExecuteCommand (ModifyOrder (built_modify_order s ord p))]) s)
           \<lparr>u_modify_order_buffer :=
              AList.update (oid ord) (built_modify_order s ord p) (u_modify_order_buffer s)\<rparr>)
    \<and> map_of (AList.update (oid ord) (built_modify_order s ord p) (u_modify_order_buffer s))
          (oid ord) = Some (built_modify_order s ord p)
    \<and> modified_price (built_modify_order s ord p) = p
    \<and> mo_order_id (built_modify_order s ord p) = oid ord
    \<and> ((ev = OrderModified x \<or> ev = OrderCancelReject x) \<and>
         map_of (u_modify_order_buffer s) x = Some b \<and> get_order c x = Some current \<longrightarrow>
         (\<forall>h. handle_event h ev s =
            Inr (deliver_event h ev
                  ((after_calls 0 0
                     (Log (if ev = OrderModified x then INFO else WARNING) (MsgEvent ev) #
                      (if Some (modified_price b) \<noteq> price current
                       then [Log INFO (MsgModifyingBuffered (mo_order_id b) (modified_price b)),
                             ExecuteCommand (ModifyOrder b)]
                       else [])) s)
                   \<lparr>u_modify_order_buffer := AList.delete x (u_modify_order_buffer s)\<rparr>))) \<and>
         \<not> has_key (AList.delete x (u_modify_order_buffer s)) x)"
proof -
  have 1: "modify_order ord p s =
      Inr ((after_calls 0 1
             (if has_key (u_modify_order_buffer s) (oid ord)
              then [Log WARNING (MsgBufferingModifyOrder ord p)]
              else [Log INFO (MsgModifyingOrder ord p),
                    ExecuteCommand (ModifyOrder (built_modify_order s ord p))]) s)
           \<lparr>u_modify_order_buffer :=
              AList.update (oid ord) (built_modify_order s ord p) (u_modify_order_buffer s)\<rparr>)"
    using assms by (rule modify_order_eq)
  have 2: "map_of (AList.update (oid ord) (built_modify_order s ord p) (u_modify_order_buffer s))
          (oid ord) = Some (built_modify_order s ord p)"
    by (simp add: AList.update_conv')
  have 3: "modified_price (built_modify_order s ord p) = p"
    "mo_order_id (built_modify_order s ord p) = oid ord"
    by (simp_all add: built_modify_order_def)
  have 4: "\<forall>h. handle_event h ev s =
            Inr (deliver_event h ev
                  ((after_calls 0 0
                     (Log (if ev = OrderModified x then INFO else WARNING) (MsgEvent ev) #
                      (if Some (modified_price b) \<noteq> price current
                       then [Log INFO (MsgModifyingBuffered (mo_order_id b) (modified_price b)),
                             ExecuteCommand (ModifyOrder b)]
                       else [])) s)
                   \<lparr>u_modify_order_buffer := AList.delete x (u_modify_order_buffer s)\<rparr>))"
    if "ev = OrderModified x \<or> ev = OrderCancelReject x"
      "map_of (u_modify_order_buffer s) x = Some b" "get_order c x = Some current"
    using modify_ack_applied [OF that(1) assms(2) that(2,3)] by (simp add: handle_event_Inr)
  have 5: "\<not> has_key (AList.delete x (u_modify_order_buffer s)) x" by simp
  from 1 2 3 4 5 show ?thesis by blast
qed

theorem modify_order_coalescing_witness:
  "\<exists>s1 s2 s3 cmd1 cmd2.
     modify_order (entry example_atomic_order) price_1_2000 connected_strategy = Inr s1 \<and>
     modify_order (entry example_atomic_order) price_1_2005 s1 = Inr s2 \<and>
     get_order example_client (OrderId ''O-1'') = Some (entry example_atomic_order) \<and>
     price (entry example_atomic_order) = Some price_1_2000 \<and>
     handle_event EmptyStrategy_hooks (OrderModified (OrderId ''O-1'')) s2 = Inr s3 \<and>
     trace s3 = trace connected_strategy @
       [Log INFO (MsgModifyingOrder (entry example_atomic_order) price_1_2000),
        ExecuteCommand (ModifyOrder cmd1),
        Log WARNING (MsgBufferingModifyOrder (entry example_atomic_order) price_1_2005),
        Log INFO (MsgEvent (OrderModified (OrderId ''O-1''))),
        Log INFO (MsgModifyingBuffered (OrderId ''O-1'') price_1_2005),
        ExecuteCommand (ModifyOrder cmd2)] \<and>
     modified_price cmd1 = price_1_2000 \<and> modified_price cmd2 = price_1_2005 \<and>
     u_modify_order_buffer s1 = [(OrderId ''O-1'', cmd1)] \<and>
     u_modify_order_buffer s2 = [(OrderId ''O-1'', cmd2)] \<and>
     u_modify_order_buffer s3 = []"
proof -
  let ?o = "entry example_atomic_order"
  let ?x = "OrderId ''O-1''"
  let ?s0 = connected_strategy
  let ?c1 = "built_modify_order ?s0 ?o price_1_2000"
  let ?s1 = "(after_calls 0 1
               [Log INFO (MsgModifyingOrder ?o price_1_2000),
                ExecuteCommand (ModifyOrder ?c1)] ?s0)
             \<lparr>u_modify_order_buffer := [(?x, ?c1)]\<rparr>"
  let ?c2 = "built_modify_order ?s1 ?o price_1_2005"
  let ?s2 = "(after_calls 0 1 [Log WARNING (MsgBufferingModifyOrder ?o price_1_2005)] ?s1)
             \<lparr>u_modify_order_buffer := [(?x, ?c2)]\<rparr>"
  let ?s3 = "(after_calls 0 0
               [Log INFO (MsgEvent (OrderModified ?x)),
                Log INFO (MsgModifyingBuffered ?x price_1_2005),
                ExecuteCommand (ModifyOrder ?c2)] ?s2)
             \<lparr>u_modify_order_buffer := []\<rparr>"
  have o: "oid ?o = ?x" "price ?o = Some price_1_2000"
    by (simp_all add: example_atomic_order_def example_order_def)
  have r0: "is_exec_client_registered ?s0" "u_exec_client ?s0 = Some example_client"
    "u_modify_order_buffer ?s0 = []"
    by (simp_all add: connected_strategy_eq fresh_strategy_eq)
  have r1: "is_exec_client_registered ?s1" "u_exec_client ?s1 = Some example_client"
    using r0 by simp_all
  have r2: "is_exec_client_registered ?s2" "u_exec_client ?s2 = Some example_client"
    using r0 by simp_all
  have g: "get_order example_client ?x = Some ?o" by (simp add: example_client_def)
  have m: "modified_price ?c1 = price_1_2000" "modified_price ?c2 = price_1_2005"
    "mo_order_id ?c2 = ?x"
    by (simp_all add: built_modify_order_def o)
  have 1: "modify_order ?o price_1_2000 ?s0 = Inr ?s1"
    using modify_order_coalescing [OF r0(1,2), of ?o price_1_2000, THEN conjunct1]
    by (simp add: o r0(3))
  have 2: "modify_order ?o price_1_2005 ?s1 = Inr ?s2"
    using modify_order_coalescing [OF r1, of ?o price_1_2005, THEN conjunct1]
    by (simp add: o)
  have d: "price_1_2005 \<noteq> price_1_2000"
    by (simp add: price_1_2000_def price_1_2005_def)
  have ne: "Some (modified_price ?c2) \<noteq> price ?o"
    unfolding m(2) o(2) using d by simp
  have pre: "(OrderModified ?x = OrderModified ?x \<or> OrderModified ?x = OrderCancelReject ?x) \<and>
         map_of (u_modify_order_buffer ?s2) ?x = Some ?c2 \<and> get_order example_client ?x = Some ?o"
    using g by simp
  have 3: "handle_event EmptyStrategy_hooks (OrderModified ?x) ?s2 = Inr ?s3"
    using modify_order_coalescing [OF r2, where ev = "OrderModified ?x" and x = ?x and b = ?c2
        and current = ?o, THEN conjunct2, THEN conjunct2, THEN conjunct2, THEN conjunct2,
        THEN mp, OF pre, THEN conjunct1, THEN spec, of EmptyStrategy_hooks] ne m(2,3)
    by simp
  have tr: "trace ?s3 = trace connected_strategy @
       [Log INFO (MsgModifyingOrder ?o price_1_2000),
        ExecuteCommand (ModifyOrder ?c1),
        Log WARNING (MsgBufferingModifyOrder ?o price_1_2005),
        Log INFO (MsgEvent (OrderModified ?x)),
        Log INFO (MsgModifyingBuffered ?x price_1_2005),
        ExecuteCommand (ModifyOrder ?c2)]"
    by simp
  have b: "u_modify_order_buffer ?s1 = [(?x, ?c1)]" "u_modify_order_buffer ?s2 = [(?x, ?c2)]"
    "u_modify_order_buffer ?s3 = []"
    by simp_all
  show ?thesis
    apply (rule exI [of _ ?s1])
    apply (rule exI [of _ ?s2])
    apply (rule exI [of _ ?s3])
    apply (rule exI [of _ ?c1])
    apply (rule exI [of _ ?c2])
    apply (intro conjI)
    apply (rule 1)
    apply (rule 2)
    apply (rule g)
    apply (rule o(2))
    apply (rule 3)
    apply (rule tr)
    apply (rule m(1))
    apply (rule m(2))
    apply (rule b(1))
    apply (rule b(2))
    apply (rule b(3))
    done
qed

section \<open>Stopping\<close>

lemma flatten_effects_after_calls [simp]:
  "flatten_effects (after_calls k' g' es s) k g ps = flatten_effects s k g ps"
  by (induction ps arbitrary: k g) (auto simp: Let_def)

lemma cancel_effects_after_calls [simp]:
  "cancel_effects (after_calls k' g' es s) reason g os = cancel_effects s reason g os"
  by (induction os arbitrary: g) auto

lemma flatten_each_eq:
  assumes "is_exec_client_registered s" "u_exec_client s = Some c"
  shows "flatten_each ps s =
     Inr (after_calls (length (open_positions ps)) (length (open_positions ps))
           (flatten_effects s (counter (id_generator (order_factory s))) (u_guid_factory s) ps) s)"
  using assms
proof (induction ps arbitrary: s)
  case Nil
  then show ?case by (simp add: open_positions_def)
next
  case (Cons pp ps)
  obtain i p where pp: "pp = (i, p)" by (cases pp)
  show ?case
  proof (cases "position_is_flat p")
    case True
    let ?s1 = "after_calls 0 0 [Log WARNING (MsgAlreadyFlat i)] s"
    have r: "is_exec_client_registered ?s1" "u_exec_client ?s1 = Some c"
      using Cons.prems by simp_all
    show ?thesis
      using Cons.IH [OF r] True
      by (simp add: pp write_log_after_calls open_positions_def)
  next
    case False
    let ?k = "counter (id_generator (order_factory s))"
    let ?es = "[Log INFO (MsgFlattening p),
            Log INFO (MsgSubmitting (exit_order s (Suc ?k) p) i),
            ExecuteCommand (SubmitOrder (trader_id s) (strategy_id s) i
              (exit_order s (Suc ?k) p) (Guid (u_guid_factory s)) (time_now (clock s)))]"
    let ?s1 = "after_calls 1 1 ?es s"
    have r: "is_exec_client_registered ?s1" "u_exec_client ?s1 = Some c"
      using Cons.prems by simp_all
    have step: "flatten_each (pp # ps) s = flatten_each ps ?s1"
      using False
      by (simp add: pp get_flatten_side_open order_factory_market_eq
          write_log_after_calls submit_order_eq [where c = c] Cons.prems)
    show ?thesis
      unfolding step Cons.IH [OF r] using False
      by (simp add: pp open_positions_def)
  qed
qed

lemma cancel_each_eq:
  assumes "u_exec_client s = Some c" "valid_string reason"
  shows "cancel_each reason os s =
     Inr (after_calls 0 (length (active_orders os))
           (cancel_effects s reason (u_guid_factory s) os) s)"
  using assms(1)
proof (induction os arbitrary: s)
  case Nil
  then show ?case by (simp add: active_orders_def)
next
  case (Cons oo os)
  obtain i ord where oo: "oo = (i, ord)" by (cases oo)
  show ?case
  proof (cases "is_active ord")
    case False
    then show ?thesis using Cons.IH [OF Cons.prems] by (simp add: oo active_orders_def)
  next
    case True
    let ?s1 = "after_calls 0 1
        [ExecuteCommand (CancelOrder (trader_id s) (strategy_id s) i reason
           (Guid (u_guid_factory s)) (time_now (clock s)))] s"
    have r: "u_exec_client ?s1 = Some c" using Cons.prems by simp
    have step: "cancel_each reason (oo # os) s = cancel_each reason os ?s1"
      using True assms(2) Cons.prems
      by (simp add: oo guid_generate_def execute_command_def and_then_def after_calls_def)
    show ?thesis
      unfolding step Cons.IH [OF r] using True
      by (simp add: oo active_orders_def)
  qed
qed

lemma commands_append [simp]: "commands (xs @ ys) = commands xs @ commands ys"
  by (induction xs rule: commands.induct) simp_all

lemma commands_flatten_effects_from:
  "commands (flatten_effects s (k + m) (g + m) ps) =
     map (\<lambda>(n, (i, p)).
            SubmitOrder (trader_id s) (strategy_id s) i (exit_order s (Suc (k + n)) p)
              (Guid (g + n)) (time_now (clock s)))
       (List.enumerate m (open_positions ps))"
proof (induction ps arbitrary: m)
  case Nil
  then show ?case by (simp add: open_positions_def)
next
  case (Cons pp ps)
  obtain i p where pp: "pp = (i, p)" by (cases pp)
  show ?case
  proof (cases "position_is_flat p")
    case True
    then show ?thesis using Cons.IH [of m] by (simp add: pp open_positions_def)
  next
    case False
    then show ?thesis using Cons.IH [of "Suc m"] by (simp add: pp open_positions_def)
  qed
qed

lemma commands_flatten_effects:
  "commands (flatten_effects s k g ps) =
     map (\<lambda>(n, (i, p)).
            SubmitOrder (trader_id s) (strategy_id s) i (exit_order s (Suc (k + n)) p)
              (Guid (g + n)) (time_now (clock s)))
       (List.enumerate 0 (open_positions ps))"
  using commands_flatten_effects_from [of s k 0 g ps] by simp

lemma commands_cancel_effects_from:
  "commands (cancel_effects s reason (g + m) os) =
     map (\<lambda>(n, (i, ord)).
            CancelOrder (trader_id s) (strategy_id s) i reason (Guid (g + n))
              (time_now (clock s)))
       (List.enumerate m (active_orders os))"
proof (induction os arbitrary: m)
  case Nil
  then show ?case by (simp add: active_orders_def)
next
  case (Cons oo os)
  obtain i ord where oo: "oo = (i, ord)" by (cases oo)
  show ?case
  proof (cases "is_active ord")
    case True
    then show ?thesis using Cons.IH [of "Suc m"] by (simp add: oo active_orders_def)
  next
    case False
    then show ?thesis using Cons.IH [of m] by (simp add: oo active_orders_def)
  qed
qed

lemma commands_cancel_effects:
  "commands (cancel_effects s reason g os) =
     map (\<lambda>(n, (i, ord)).
            CancelOrder (trader_id s) (strategy_id s) i reason (Guid (g + n))
              (time_now (clock s)))
       (List.enumerate 0 (active_orders os))"
  using commands_cancel_effects_from [of s reason g 0 os] by simp

lemma ledger_after_calls [simp]: "ledger (after_calls k g es s) = ledger s"
  by (simp add: ledger_def)

lemma flatten_all_positions_eq:
  assumes "is_exec_client_registered s" "u_exec_client s = Some c" "u_portfolio s = Some pf"
  shows "flatten_all_positions s =
     Inr (if get_positions_active pf (strategy_id s) = []
          then after_calls 0 0 [Log WARNING MsgNoActivePositions] s
          else after_calls (length (open_positions (get_positions_active pf (strategy_id s))))
                 (length (open_positions (get_positions_active pf (strategy_id s))))
                 (flatten_effects s (counter (id_generator (order_factory s))) (u_guid_factory s)
                    (get_positions_active pf (strategy_id s))) s)"
  using assms flatten_each_eq [OF assms(1,2)]
  by (simp add: flatten_all_positions_def Let_def write_log_after_calls)

lemma stop_flatten_step:
  assumes "is_exec_client_registered s" "u_exec_client s = Some c" "u_portfolio s = Some pf"
  shows "(if flatten_on_stop s
          then (if \<not> is_flat s then resume (flatten_all_positions s) else s)
          else s) =
     after_calls (length (exits_on_stop s pf)) (length (exits_on_stop s pf))
       (flatten_on_stop_effects s pf) s"
  using assms flatten_all_positions_eq [OF assms]
  by (simp add: is_flat_def bint_result_def exits_on_stop_def flatten_on_stop_effects_def
      flattens_on_stop_def open_positions_def)

lemma stop_cancel_step:
  assumes "is_exec_client_registered s" "u_exec_client s = Some c"
  shows "(if cancel_all_orders_on_stop s
          then resume (cancel_all_orders ''STOPPING STRATEGY'' s)
          else s) =
     after_calls 0 (length (cancels_on_stop s c))
       (if cancel_all_orders_on_stop s
        then cancel_effects s ''STOPPING STRATEGY'' (u_guid_factory s)
               (get_orders c (strategy_id s))
        else []) s"
  using assms cancel_each_eq [OF assms(2), of "''STOPPING STRATEGY''"]
  by (simp add: cancel_all_orders_def cancels_on_stop_def valid_string_def)

lemma residual_warnings_cong:
  "ledger s' = ledger s \<Longrightarrow> residual_warnings s' = residual_warnings s"
  by (simp add: ledger_def residual_warnings_def)

lemma stop_eq:
  assumes "is_exec_client_registered s" "u_exec_client s = Some c" "u_portfolio s = Some pf"
  shows "stop h s =
     write_log INFO MsgStopped
       (call_hook (on_stop h)
          ((after_calls (length (exits_on_stop s pf))
              (length (exits_on_stop s pf) + length (cancels_on_stop s c))
              ([Log INFO MsgStopping, CancelAllTimeAlerts, CancelAllTimers] @
               flatten_on_stop_effects s pf @ cancel_on_stop_effects s pf c @
               [SetIsRunning False] @ residual_warnings s) s)
           \<lparr>is_running := False\<rparr>))"
proof -
  let ?s3 = "after_calls 0 0 [Log INFO MsgStopping, CancelAllTimeAlerts, CancelAllTimers] s"
  have s3: "cancel_all_timers (cancel_all_time_alerts (write_log INFO MsgStopping s)) = ?s3"
    by (simp add: cancel_all_timers_def cancel_all_time_alerts_def write_log_def after_calls_def)
  have r3: "is_exec_client_registered ?s3" "u_exec_client ?s3 = Some c" "u_portfolio ?s3 = Some pf"
    using assms by simp_all
  have same3: "exits_on_stop ?s3 pf = exits_on_stop s pf"
    "flatten_on_stop_effects ?s3 pf = flatten_on_stop_effects s pf"
    by (simp_all add: exits_on_stop_def flatten_on_stop_effects_def flattens_on_stop_def)
  let ?n = "length (exits_on_stop s pf)"
  let ?s4 = "after_calls ?n ?n
      ([Log INFO MsgStopping, CancelAllTimeAlerts, CancelAllTimers] @ flatten_on_stop_effects s pf) s"
  have f: "(if flatten_on_stop ?s3
          then (if \<not> is_flat ?s3 then resume (flatten_all_positions ?s3) else ?s3)
          else ?s3) = ?s4"
    unfolding stop_flatten_step [OF r3] same3 by simp
  have r4: "is_exec_client_registered ?s4" "u_exec_client ?s4 = Some c"
    using assms by simp_all
  have same4: "cancels_on_stop ?s4 c = cancels_on_stop s c"
    "(if cancel_all_orders_on_stop ?s4
            then cancel_effects ?s4 ''STOPPING STRATEGY'' (u_guid_factory ?s4)
                   (get_orders c (strategy_id ?s4))
            else []) = cancel_on_stop_effects s pf c"
    by (simp_all add: cancels_on_stop_def cancel_on_stop_effects_def)
  let ?m = "length (cancels_on_stop s c)"
  let ?s5 = "after_calls ?n (?n + ?m)
      ([Log INFO MsgStopping, CancelAllTimeAlerts, CancelAllTimers] @ flatten_on_stop_effects s pf @
       cancel_on_stop_effects s pf c) s"
  have c: "(if cancel_all_orders_on_stop ?s4
          then resume (cancel_all_orders ''STOPPING STRATEGY'' ?s4)
          else ?s4) = ?s5"
    unfolding stop_cancel_step [OF r4] same4 by simp
  have w: "residual_warnings (set_is_running False ?s5) = residual_warnings s"
    by (rule residual_warnings_cong) (simp add: ledger_def set_is_running_def)
  have s7: "(set_is_running False ?s5)
              \<lparr>trace := trace (set_is_running False ?s5) @ residual_warnings s\<rparr> =
            (after_calls ?n (?n + ?m)
                  ([Log INFO MsgStopping, CancelAllTimeAlerts, CancelAllTimers] @
                   flatten_on_stop_effects s pf @ cancel_on_stop_effects s pf c @
                   [SetIsRunning False] @ residual_warnings s) s)
               \<lparr>is_running := False\<rparr>"
    by (simp add: after_calls_def set_is_running_def)
  show ?thesis
    unfolding stop_def Let_def s3 f
    apply (simp only: c w s7)
    done
qed

lemma stop_flatten_step_unregistered:
  assumes "\<not> is_exec_client_registered s"
  shows "(if flatten_on_stop s
          then (if \<not> is_flat s then resume (flatten_all_positions s) else s)
          else s) =
     after_calls 0 0
       (if flatten_on_stop s \<and>
           (case u_portfolio s of
              None \<Rightarrow> True
            | Some pf \<Rightarrow> \<not> is_strategy_flat pf (strategy_id s))
        then [Log ERROR MsgCannotFlattenAllPositions] else []) s"
  using assms
  by (cases "u_portfolio s")
    (simp_all add: is_flat_def bint_result_def flatten_all_positions_def write_log_after_calls)

lemma stop_cancel_step_unregistered:
  assumes "\<not> is_exec_client_registered s"
  shows "(if cancel_all_orders_on_stop s
          then resume (cancel_all_orders ''STOPPING STRATEGY'' s)
          else s) =
     after_calls 0 0
       (if cancel_all_orders_on_stop s then [Log ERROR MsgCannotCancelAllOrders] else []) s"
  using assms by (simp add: cancel_all_orders_def write_log_after_calls)

lemma stop_eq_unregistered:
  assumes "\<not> is_exec_client_registered s"
  shows "stop h s =
     write_log INFO MsgStopped
       (call_hook (on_stop h)
          ((after_calls 0 0
              ([Log INFO MsgStopping, CancelAllTimeAlerts, CancelAllTimers] @
               (if flatten_on_stop s \<and>
                   (case u_portfolio s of
                      None \<Rightarrow> True
                    | Some pf \<Rightarrow> \<not> is_strategy_flat pf (strategy_id s))
                then [Log ERROR MsgCannotFlattenAllPositions] else []) @
               (if cancel_all_orders_on_stop s then [Log ERROR MsgCannotCancelAllOrders] else []) @
               [SetIsRunning False] @ residual_warnings s) s)
           \<lparr>is_running := False\<rparr>))"
proof -
  let ?F = "if flatten_on_stop s \<and>
                   (case u_portfolio s of
                      None \<Rightarrow> True
                    | Some pf \<Rightarrow> \<not> is_strategy_flat pf (strategy_id s))
                then [Log ERROR MsgCannotFlattenAllPositions] else []"
  let ?C = "if cancel_all_orders_on_stop s then [Log ERROR MsgCannotCancelAllOrders] else []"
  let ?s3 = "after_calls 0 0 [Log INFO MsgStopping, CancelAllTimeAlerts, CancelAllTimers] s"
  have s3: "cancel_all_timers (cancel_all_time_alerts (write_log INFO MsgStopping s)) = ?s3"
    by (simp add: cancel_all_timers_def cancel_all_time_alerts_def write_log_def after_calls_def)
  have r3: "\<not> is_exec_client_registered ?s3" using assms by simp
  let ?s4 = "after_calls 0 0 ([Log INFO MsgStopping, CancelAllTimeAlerts, CancelAllTimers] @ ?F) s"
  have f: "(if flatten_on_stop ?s3
          then (if \<not> is_flat ?s3 then resume (flatten_all_positions ?s3) else ?s3)
          else ?s3) = ?s4"
    unfolding stop_flatten_step_unregistered [OF r3]
    by (cases "u_portfolio s") simp_all
  have r4: "\<not> is_exec_client_registered ?s4" using assms by simp
  let ?s5 = "after_calls 0 0
      ([Log INFO MsgStopping, CancelAllTimeAlerts, CancelAllTimers] @ ?F @ ?C) s"
  have c: "(if cancel_all_orders_on_stop ?s4
          then resume (cancel_all_orders ''STOPPING STRATEGY'' ?s4)
          else ?s4) = ?s5"
    unfolding stop_cancel_step_unregistered [OF r4] by simp
  have w: "residual_warnings (set_is_running False ?s5) = residual_warnings s"
    by (rule residual_warnings_cong) (simp add: ledger_def set_is_running_def)
  have s7: "(set_is_running False ?s5)
              \<lparr>trace := trace (set_is_running False ?s5) @ residual_warnings s\<rparr> =
            (after_calls 0 0
                  ([Log INFO MsgStopping, CancelAllTimeAlerts, CancelAllTimers] @
                   ?F @ ?C @ [SetIsRunning False] @ residual_warnings s) s)
               \<lparr>is_running := False\<rparr>"
    by (simp add: after_calls_def set_is_running_def)
  show ?thesis
    unfolding stop_def Let_def s3 f
    apply (simp only: c w s7)
    done
qed

lemma busy_strategy_eq:
  "busy_strategy =
     (after_calls 0 1
        [Log INFO (MsgModifyingOrder (entry example_atomic_order) price_1_2005),
         ExecuteCommand (ModifyOrder
           (built_modify_order running_strategy (entry example_atomic_order) price_1_2005))]
        running_strategy)
     \<lparr>u_modify_order_buffer :=
        [(OrderId ''O-1'',
          built_modify_order running_strategy (entry example_atomic_order) price_1_2005)]\<rparr>"
proof -
  have r: "is_exec_client_registered running_strategy"
    "u_exec_client running_strategy = Some example_client"
    "u_modify_order_buffer running_strategy = []"
    by (simp_all add: running_strategy_eq submitted_strategy_eq connected_strategy_eq
        fresh_strategy_eq)
  have o: "oid (entry example_atomic_order) = OrderId ''O-1''"
    by (simp add: example_atomic_order_def example_order_def)
  show ?thesis
    unfolding busy_strategy_def modify_order_eq [OF r(1,2)]
    by (simp add: r(3) o)
qed



end
